theory Spec2Isabelle
  imports Complex_Main "HOL-Library.AList"
begin

section \<open>Values shared by the three components\<close>

text \<open>
  The wall clock and the uuid generator are inputs of the model: an operation that reads
  \<^verbatim>\<open>datetime.now()\<close> takes the reading as its argument \<open>now\<close>, and an operation that
  draws \<^verbatim>\<open>uuid.uuid4()\<close> takes the drawn string as its argument \<open>uid\<close>.  A payload of
  type \<^verbatim>\<open>Dict[str, Any]\<close> is an association list in insertion order; of its values,
  \<open>PIso t\<close> is the string \<^verbatim>\<open>t.isoformat()\<close> and \<open>PDatetime t\<close> the \<^verbatim>\<open>datetime\<close> object.
\<close>

type_synonym time = nat

datatype pyval =
    PStr string
  | PBool bool
  | PNum rat
  | PIso time
  | PStrs "string list"
  | PDatetime time

type_synonym pydict = "(string \<times> pyval) list"

datatype error =
    ValueError string
  | KeyError string
  | AttributeError string
  | TypeError string
  | Raised string

text \<open>\<^verbatim>\<open>str(e)\<close> of an exception, as the except blocks record it.\<close>

fun str_of_error :: "error \<Rightarrow> string" where
  "str_of_error (ValueError m) = m"
| "str_of_error (KeyError k) = [CHR 0x27] @ k @ [CHR 0x27]"
| "str_of_error (AttributeError m) = m"
| "str_of_error (TypeError m) = m"
| "str_of_error (Raised m) = m"

section \<open>Agent coordinator (orchestrator/coordinator/agent\_coordinator.py)\<close>

record agent_info =
  agent_id :: string
  agent_type :: string
  capabilities :: "string list"
  status :: string
  current_task :: "string option"
  tasks_completed :: int
  tasks_failed :: int
  registered_at :: time
  last_heartbeat :: time

text \<open>\<^verbatim>\<open>AgentInfo.__init__\<close>\<close>

definition AgentInfo :: "string \<Rightarrow> string \<Rightarrow> string list \<Rightarrow> time \<Rightarrow> agent_info" where
  "AgentInfo aid atype caps now =
     \<lparr> agent_id = aid, agent_type = atype, capabilities = caps, status = ''idle'',
       current_task = None, tasks_completed = 0, tasks_failed = 0,
       registered_at = now, last_heartbeat = now \<rparr>"

text \<open>The dictionary that \<open>assign_task\<close> puts on the overflow queue.\<close>

record queued_task =
  task_id :: string
  task_type :: string
  task_data :: pydict
  priority :: int
  queued_at :: time

text \<open>
  The two shapes of dictionary stored in \<open>task_results\<close>:
  \<^verbatim>\<open>{"status": "completed", "result": {"success": True, "data": task_data}, "completed_at", "agent_id"}\<close>
  and \<^verbatim>\<open>{"status": "failed", "error": str(e), "failed_at", "agent_id"}\<close>.
\<close>

datatype task_result =
    TaskCompleted pydict time string
  | TaskFailed string time string

text \<open>
  \<open>agents\<close> is a Python dict, iterated in insertion order by \<open>assign_task\<close>: an association
  list whose keys are distinct.  \<open>agent_load\<close> is a \<^verbatim>\<open>defaultdict(int)\<close> that is only ever
  read and written by key: a total function, a missing key reading 0.  \<open>task_queue\<close> is the
  unbounded FIFO \<^verbatim>\<open>asyncio.Queue\<close>, its head the next entry that \<open>get\<close> returns.
\<close>

record coordinator =
  agents :: "(string \<times> agent_info) list"
  task_queue :: "queued_task list"
  task_results :: "string \<rightharpoonup> task_result"
  agent_load :: "string \<Rightarrow> int"

definition init_coordinator :: coordinator where
  "init_coordinator =
     \<lparr> agents = [], task_queue = [], task_results = Map.empty, agent_load = (\<lambda>k. 0) \<rparr>"

text \<open>
  \<open>register_agent\<close>: \<open>hex8\<close> is \<^verbatim>\<open>uuid.uuid4().hex[:8]\<close>.  Storing under a key that is
  already present keeps the key's position, as a Python dict does.
\<close>

definition register_agent ::
  "string \<Rightarrow> time \<Rightarrow> string \<Rightarrow> string list \<Rightarrow> coordinator \<Rightarrow> string \<times> coordinator" where
  "register_agent hex8 now atype caps c =
     (let aid = atype @ ''_'' @ hex8;
          info = AgentInfo aid atype caps now
      in (aid, c\<lparr> agents := AList.update aid info (agents c),
                  agent_load := (agent_load c)(aid := 0) \<rparr>))"

definition unregister_agent :: "string \<Rightarrow> coordinator \<Rightarrow> coordinator" where
  "unregister_agent aid c =
     (if aid \<in> fst ` set (agents c)
      then c\<lparr> agents := AList.delete aid (agents c),
               agent_load := (agent_load c)(aid := 0) \<rparr>
      else c)"

text \<open>
  Python's \<^verbatim>\<open>min(xs, key=f)\<close> on a non-empty list: the first element whose key is
  minimal (a later element replaces the best one only when its key is strictly smaller).
\<close>

fun min_from :: "('a \<Rightarrow> int) \<Rightarrow> 'a \<Rightarrow> 'a list \<Rightarrow> 'a" where
  "min_from f best [] = best"
| "min_from f best (x # xs) = (if f x < f best then min_from f x xs else min_from f best xs)"

definition suitable_agents :: "coordinator \<Rightarrow> string \<Rightarrow> (string \<times> agent_info) list" where
  "suitable_agents c ttype =
     filter (\<lambda>(k, a). ttype \<in> set (capabilities a) \<and> status a = ''idle'') (agents c)"

text \<open>
  \<open>assign_task\<close> returns the task id, the coroutine it hands to \<^verbatim>\<open>asyncio.create_task\<close>
  (the arguments of \<open>_execute_agent_task\<close>: agent id, task id, task data; \<open>None\<close> when the
  task was queued), and the coordinator afterwards.
\<close>

type_synonym spawned = "string \<times> string \<times> pydict"

definition assign_task ::
  "string \<Rightarrow> time \<Rightarrow> string \<Rightarrow> pydict \<Rightarrow> int \<Rightarrow> coordinator
     \<Rightarrow> string \<times> spawned option \<times> coordinator" where
  "assign_task uid now ttype tdata prio c =
     (let tid = uid in
      case suitable_agents c ttype of
        [] \<Rightarrow>
          (tid, None,
           c\<lparr> task_queue := task_queue c @
                 [\<lparr> task_id = tid, task_type = ttype, task_data = tdata,
                    priority = prio, queued_at = now \<rparr>] \<rparr>)
      | s # ss \<Rightarrow>
          (let (k, a) = min_from (\<lambda>(k, a). agent_load c (agent_id a)) s ss;
               a' = a\<lparr> status := ''busy'', current_task := Some tid \<rparr>
           in (tid, Some (agent_id a, tid, tdata),
               c\<lparr> agents := AList.update k a' (agents c),
                  agent_load := (agent_load c)(agent_id a := agent_load c (agent_id a) + 1) \<rparr>)))"

text \<open>
  \<open>_execute_agent_task\<close>, from the point where the awaited unit of work (the placeholder
  \<^verbatim>\<open>asyncio.sleep(0.1)\<close>, first statement of the \<^verbatim>\<open>try\<close> block) is over: \<open>work = None\<close>
  when it returned, \<open>work = Some e\<close> when it raised the exception \<open>e\<close>.  Nothing after that
  point suspends, so the rest runs as one step.  \<open>uid\<close> and \<open>now\<close> are what the nested
  \<open>assign_task\<close> draws.  In both blocks \<^verbatim>\<open>self.agents[agent_id]\<close> raises \<open>KeyError\<close> for an
  agent that is no longer registered; raised inside the \<^verbatim>\<open>try\<close> it enters the
  \<^verbatim>\<open>except\<close> block, whose first statement raises it again, out of the coroutine, with the
  coordinator as it was.  \<open>complete_task\<close> is the \<^verbatim>\<open>try\<close> block up to the stored result,
  \<open>fail_task\<close> is the \<^verbatim>\<open>except\<close> block.
\<close>

definition complete_task ::
  "string \<Rightarrow> string \<Rightarrow> pydict \<Rightarrow> time \<Rightarrow> coordinator \<Rightarrow> error + coordinator" where
  "complete_task aid tid tdata now c =
     (case map_of (agents c) aid of
        None \<Rightarrow> Inl (KeyError aid)
      | Some a \<Rightarrow>
          Inr (c\<lparr> agents := AList.update aid
                     (a\<lparr> status := ''idle'', current_task := None,
                        tasks_completed := tasks_completed a + 1 \<rparr>) (agents c),
                  agent_load := (agent_load c)(aid := agent_load c aid - 1),
                  task_results := (task_results c)(tid \<mapsto> TaskCompleted tdata now aid) \<rparr>))"

definition fail_task ::
  "string \<Rightarrow> string \<Rightarrow> error \<Rightarrow> time \<Rightarrow> coordinator \<Rightarrow> error + coordinator" where
  "fail_task aid tid e now c =
     (case map_of (agents c) aid of
        None \<Rightarrow> Inl (KeyError aid)
      | Some a \<Rightarrow>
          Inr (c\<lparr> agents := AList.update aid
                     (a\<lparr> status := ''idle'', current_task := None,
                        tasks_failed := tasks_failed a + 1 \<rparr>) (agents c),
                  agent_load := (agent_load c)(aid := agent_load c aid - 1),
                  task_results :=
                    (task_results c)(tid \<mapsto> TaskFailed (str_of_error e) now aid) \<rparr>))"

definition execute_agent_task ::
  "string \<Rightarrow> string \<Rightarrow> pydict \<Rightarrow> error option \<Rightarrow> string \<Rightarrow> time \<Rightarrow> coordinator
     \<Rightarrow> (error + unit) \<times> spawned option \<times> coordinator" where
  "execute_agent_task aid tid tdata work uid now c =
     (case work of
        None \<Rightarrow>
          (case complete_task aid tid tdata now c of
             Inl e \<Rightarrow>
               (case fail_task aid tid e now c of
                  Inl e' \<Rightarrow> (Inl e', None, c)
                | Inr c' \<Rightarrow> (Inr (), None, c'))
           | Inr c1 \<Rightarrow>
               (case task_queue c1 of
                  [] \<Rightarrow> (Inr (), None, c1)
                | next_task # rest \<Rightarrow>
                    (let (new_tid, sp, c2) =
                           assign_task uid now (task_type next_task) (task_data next_task)
                             (priority next_task) (c1\<lparr> task_queue := rest \<rparr>)
                     in (Inr (), sp, c2))))
      | Some e \<Rightarrow>
          (case fail_task aid tid e now c of
             Inl e' \<Rightarrow> (Inl e', None, c)
           | Inr c' \<Rightarrow> (Inr (), None, c')))"

definition get_task_result :: "string \<Rightarrow> coordinator \<Rightarrow> task_result option" where
  "get_task_result tid c = task_results c tid"

definition heartbeat :: "string \<Rightarrow> time \<Rightarrow> coordinator \<Rightarrow> coordinator" where
  "heartbeat aid now c =
     (case map_of (agents c) aid of
        None \<Rightarrow> c
      | Some a \<Rightarrow> c\<lparr> agents := AList.update aid (a\<lparr> last_heartbeat := now \<rparr>) (agents c) \<rparr>)"

text \<open>
  Well-formedness of the registry as a dictionary: keys are distinct, and every agent is
  stored under its own id (\<open>register_agent\<close> is the only writer of keys).
\<close>

definition coordinator_wf :: "coordinator \<Rightarrow> bool" where
  "coordinator_wf c \<longleftrightarrow>
     distinct (map fst (agents c)) \<and> map (\<lambda>(k, a). agent_id a) (agents c) = map fst (agents c)"

section \<open>Workflow engine (orchestrator/workflow/engine.py, models/schemas.py)\<close>

datatype WorkflowStatus = PENDING | RUNNING | COMPLETED | FAILED | TIMEOUT

text \<open>\<open>WorkflowStep\<close>; its fields \<open>status\<close>, \<open>start_time\<close>, \<open>end_time\<close>, \<open>data\<close>, \<open>errors\<close>
  carry the prefix \<open>step_\<close>.  Clock readings are in milliseconds.\<close>

record workflow_step =
  step_name :: string
  step_status :: string
  step_start_time :: time
  step_end_time :: "time option"
  duration_ms :: "int option"
  step_data :: pydict
  step_errors :: "string list"

text \<open>The dictionary stored in \<open>WorkflowExecution.result\<close>.\<close>

record workflow_result =
  res_validated_data :: "pydict option"
  res_rhythm_analysis :: "pydict option"
  res_intervention_plan :: "pydict option"
  res_feedback :: "pydict option"

text \<open>\<open>WorkflowExecution\<close>; its fields \<open>workflow_id\<close>, \<open>user_id\<close>, \<open>status\<close> carry the
  prefix \<open>wf_\<close>.\<close>

record workflow_execution =
  wf_workflow_id :: string
  wf_user_id :: string
  start_time :: time
  end_time :: "time option"
  wf_status :: WorkflowStatus
  steps :: "workflow_step list"
  result :: "workflow_result option"

text \<open>\<open>AgentState\<close>\<close>

record agent_state =
  user_id :: string
  timestamp :: time
  sensor_data :: pydict
  validated_data :: "pydict option"
  rhythm_analysis :: "pydict option"
  intervention_plan :: "pydict option"
  feedback :: "pydict option"
  errors :: "string list"
  workflow_id :: string
  current_step :: string

record engine =
  workflows :: "string \<rightharpoonup> workflow_execution"
  active_workflows :: int

definition init_engine :: engine where
  "init_engine = \<lparr> workflows = Map.empty, active_workflows = 0 \<rparr>"

definition create_workflow ::
  "string \<Rightarrow> time \<Rightarrow> string \<Rightarrow> string \<Rightarrow> engine \<Rightarrow> string \<times> engine" where
  "create_workflow uid now uid_user wtype e =
     (let wid = uid;
          execution = \<lparr> wf_workflow_id = wid, wf_user_id = uid_user, start_time = now,
                        end_time = None, wf_status = PENDING, steps = [], result = None \<rparr>
      in (wid, e\<lparr> workflows := (workflows e)(wid \<mapsto> execution) \<rparr>))"

text \<open>
  A stage body (\<open>step_func\<close>) maps the state to the updated state or raises.  The four
  bodies of the source take the clock reading they stamp into their output.
\<close>

type_synonym stage = "agent_state \<Rightarrow> error + agent_state"

definition perception_step :: "time \<Rightarrow> stage" where
  "perception_step now state =
     Inr (state\<lparr> validated_data := Some
            [(''imu_valid'', PBool True), (''hrv_valid'', PBool True),
             (''environment_valid'', PBool True), (''quality_score'', PNum (95 / 100)),
             (''processed_at'', PIso now)] \<rparr>)"

definition analysis_step :: "time \<Rightarrow> stage" where
  "analysis_step now state =
     Inr (state\<lparr> rhythm_analysis := Some
            [(''vitality_score'', PNum (72 / 100)), (''energy_state'', PStr ''moderate''),
             (''risk_level'', PStr ''low''), (''circadian_phase'', PStr ''afternoon_peak''),
             (''prediction_confidence'', PNum (89 / 100)), (''analyzed_at'', PIso now)] \<rparr>)"

definition intervention_step :: "time \<Rightarrow> stage" where
  "intervention_step now state =
     Inr (state\<lparr> intervention_plan := Some
            [(''recommendations'',
                PStrs [''Take a 10-minute break'', ''Practice deep breathing'', ''Hydrate'']),
             (''next_intervention'', PIso now), (''intervention_type'', PStr ''preventive''),
             (''priority'', PStr ''medium''), (''generated_at'', PIso now)] \<rparr>)"

definition feedback_step :: "time \<Rightarrow> stage" where
  "feedback_step now state =
     Inr (state\<lparr> feedback := Some
            [(''feedback_requested'', PBool True),
             (''feedback_channels'', PStrs [''app'', ''notification'']),
             (''requested_at'', PIso now)] \<rparr>)"

text \<open>
  The four bound methods that \<open>execute_workflow\<close> passes to \<open>_execute_step\<close>, looked up on
  \<open>self\<close>: a parameter of the model, \<open>source_stages\<close> being the bodies of the source.
\<close>

record stages =
  perception :: stage
  analysis :: stage
  intervention :: stage
  feedback_stage :: stage

definition source_stages :: "time \<Rightarrow> stages" where
  "source_stages now =
     \<lparr> perception = perception_step now, analysis = analysis_step now,
       intervention = intervention_step now, feedback_stage = feedback_step now \<rparr>"

text \<open>\<^verbatim>\<open>self.workflows[workflow_id].steps.append(step)\<close>\<close>

definition append_step :: "string \<Rightarrow> workflow_step \<Rightarrow> engine \<Rightarrow> error + engine" where
  "append_step wid step e =
     (case workflows e wid of
        None \<Rightarrow> Inl (KeyError wid)
      | Some w \<Rightarrow> Inr (e\<lparr> workflows := (workflows e)(wid \<mapsto> w\<lparr> steps := steps w @ [step] \<rparr>) \<rparr>))"

text \<open>
  \<open>_execute_step\<close>; \<open>t0\<close> and \<open>t1\<close> are the clock readings before and after the stage.  An
  exception of the \<^verbatim>\<open>try\<close> block (the stage's, or the \<open>KeyError\<close> of the append) enters the
  \<^verbatim>\<open>except\<close> block, which appends the failed step and raises the exception again; a
  \<open>KeyError\<close> of that second append replaces it.
\<close>

definition execute_step ::
  "string \<Rightarrow> string \<Rightarrow> agent_state \<Rightarrow> stage \<Rightarrow> time \<Rightarrow> time \<Rightarrow> engine
     \<Rightarrow> (error + agent_state) \<times> engine" where
  "execute_step wid name state step_func t0 t1 e =
     (let step = \<lparr> step_name = name, step_status = ''running'', step_start_time = t0,
                   step_end_time = None, duration_ms = None, step_data = [],
                   step_errors = [] \<rparr>;
          attempt =
            (case step_func (state\<lparr> current_step := name \<rparr>) of
               Inl ex \<Rightarrow> Inl (ex, step)
             | Inr result_state \<Rightarrow>
                 (let step1 = step\<lparr> step_status := ''completed'', step_end_time := Some t1,
                                    duration_ms := Some (int t1 - int t0) \<rparr>
                  in case append_step wid step1 e of
                       Inl ex \<Rightarrow> Inl (ex, step1)
                     | Inr e' \<Rightarrow> Inr (result_state, e')))
      in case attempt of
           Inr (result_state, e') \<Rightarrow> (Inr result_state, e')
         | Inl (ex, step1) \<Rightarrow>
             (let step2 = step1\<lparr> step_status := ''failed'', step_end_time := Some t1,
                                 step_errors := step_errors step1 @ [str_of_error ex] \<rparr>
              in case append_step wid step2 e of
                   Inl ex' \<Rightarrow> (Inl ex', e)
                 | Inr e' \<Rightarrow> (Inl ex, e')))"

text \<open>\<open>_should_get_feedback\<close>: an empty or absent plan is falsy; a plan without the key
  reads \<^verbatim>\<open>"low"\<close>.\<close>

definition should_get_feedback :: "agent_state \<Rightarrow> bool" where
  "should_get_feedback state =
     (case intervention_plan state of
        None \<Rightarrow> False
      | Some plan \<Rightarrow>
          if plan = [] then False
          else (case map_of plan ''priority'' of None \<Rightarrow> PStr ''low'' | Some v \<Rightarrow> v)
                 \<in> set [PStr ''medium'', PStr ''high''])"

text \<open>Steps 1 to 4 of \<open>execute_workflow\<close>: the first exception ends the sequence.\<close>

definition run_stages ::
  "stages \<Rightarrow> string \<Rightarrow> agent_state \<Rightarrow> time \<Rightarrow> engine \<Rightarrow> (error + agent_state) \<times> engine" where
  "run_stages sf wid state now e =
     (case execute_step wid ''perception'' state (perception sf) now now e of
        (Inl ex, e1) \<Rightarrow> (Inl ex, e1)
      | (Inr s1, e1) \<Rightarrow>
     (case execute_step wid ''analysis'' s1 (analysis sf) now now e1 of
        (Inl ex, e2) \<Rightarrow> (Inl ex, e2)
      | (Inr s2, e2) \<Rightarrow>
     (case execute_step wid ''intervention'' s2 (intervention sf) now now e2 of
        (Inl ex, e3) \<Rightarrow> (Inl ex, e3)
      | (Inr s3, e3) \<Rightarrow>
          if should_get_feedback s3
          then execute_step wid ''feedback'' s3 (feedback_stage sf) now now e3
          else (Inr s3, e3))))"

text \<open>
  Assignments to the fields of the local \<open>workflow\<close>, the object stored under
  \<open>workflow_id\<close> (no operation of the engine removes or replaces a stored object while
  an execution runs).
\<close>

definition update_workflow ::
  "string \<Rightarrow> (workflow_execution \<Rightarrow> workflow_execution) \<Rightarrow> engine \<Rightarrow> engine" where
  "update_workflow wid f e =
     (case workflows e wid of
        None \<Rightarrow> e
      | Some w \<Rightarrow> e\<lparr> workflows := (workflows e)(wid \<mapsto> f w) \<rparr>)"

text \<open>The start of the \<^verbatim>\<open>try\<close> block, up to the first stage.\<close>

definition begin_execute :: "string \<Rightarrow> engine \<Rightarrow> error + engine" where
  "begin_execute wid e =
     (case workflows e wid of
        None \<Rightarrow> Inl (ValueError (''Workflow '' @ wid @ '' not found''))
      | Some w \<Rightarrow> Inr (update_workflow wid (\<lambda>w. w\<lparr> wf_status := RUNNING \<rparr>) e))"

text \<open>The dictionary assembled from the final state.\<close>

definition result_of :: "agent_state \<Rightarrow> workflow_result" where
  "result_of state =
     \<lparr> res_validated_data = validated_data state,
       res_rhythm_analysis = rhythm_analysis state,
       res_intervention_plan = intervention_plan state,
       res_feedback = feedback state \<rparr>"

definition complete_workflow ::
  "string \<Rightarrow> agent_state \<Rightarrow> time \<Rightarrow> engine \<Rightarrow> workflow_result \<times> engine" where
  "complete_workflow wid state now e =
     (let res = result_of state
      in (res, update_workflow wid
                 (\<lambda>w. w\<lparr> wf_status := COMPLETED, end_time := Some now, result := Some res \<rparr>) e))"

text \<open>
  The \<^verbatim>\<open>except\<close> block of \<open>execute_workflow\<close>: \<^verbatim>\<open>workflow.status = ...\<close> on the \<open>None\<close>
  that \<^verbatim>\<open>self.workflows.get\<close> returned for an unknown id raises \<open>AttributeError\<close>, which
  replaces the exception being handled; otherwise the exception is raised again.
\<close>

definition fail_workflow :: "string \<Rightarrow> error \<Rightarrow> time \<Rightarrow> engine \<Rightarrow> error \<times> engine" where
  "fail_workflow wid ex now e =
     (case workflows e wid of
        None \<Rightarrow> (AttributeError ([CHR 0x27] @ ''NoneType'' @ [CHR 0x27] @ '' object has no attribute ''
             @ [CHR 0x27] @ ''status'' @ [CHR 0x27]), e)
      | Some w \<Rightarrow>
          (ex, update_workflow wid (\<lambda>w. w\<lparr> wf_status := FAILED, end_time := Some now \<rparr>) e))"

definition enter_execute :: "engine \<Rightarrow> engine" where
  "enter_execute e = e\<lparr> active_workflows := active_workflows e + 1 \<rparr>"

definition leave_execute :: "engine \<Rightarrow> engine" where
  "leave_execute e = e\<lparr> active_workflows := active_workflows e - 1 \<rparr>"

definition execute_workflow ::
  "stages \<Rightarrow> string \<Rightarrow> agent_state \<Rightarrow> time \<Rightarrow> engine \<Rightarrow> (error + workflow_result) \<times> engine" where
  "execute_workflow sf wid initial_state now e =
     (let e0 = enter_execute e;
          (outcome, e') =
            (case begin_execute wid e0 of
               Inl ex \<Rightarrow> (Inl ex, e0)
             | Inr e1 \<Rightarrow>
                 (case run_stages sf wid (initial_state\<lparr> workflow_id := wid \<rparr>) now e1 of
                    (Inl ex, e2) \<Rightarrow> (Inl ex, e2)
                  | (Inr state, e2) \<Rightarrow>
                      (let (res, e3) = complete_workflow wid state now e2 in (Inr res, e3))))
      in case outcome of
           Inr res \<Rightarrow> (Inr res, leave_execute e')
         | Inl ex \<Rightarrow>
             (let (ex', e'') = fail_workflow wid ex now e' in (Inl ex', leave_execute e'')))"

definition get_workflow_status :: "string \<Rightarrow> engine \<Rightarrow> workflow_execution option" where
  "get_workflow_status wid e = workflows e wid"

text \<open>\<open>AgentState(user_id=...)\<close> with the defaults of the schema.\<close>

definition AgentState :: "string \<Rightarrow> time \<Rightarrow> agent_state" where
  "AgentState uid_user now =
     \<lparr> user_id = uid_user, timestamp = now, sensor_data = [], validated_data = None,
       rhythm_analysis = None, intervention_plan = None, feedback = None, errors = [],
       workflow_id = [], current_step = [] \<rparr>"

text \<open>The record that \<open>_execute_step\<close> appends when the stage returns, and when it raises.\<close>

definition completed_step :: "string \<Rightarrow> time \<Rightarrow> time \<Rightarrow> workflow_step" where
  "completed_step name t0 t1 =
     \<lparr> step_name = name, step_status = ''completed'', step_start_time = t0,
       step_end_time = Some t1, duration_ms = Some (int t1 - int t0), step_data = [],
       step_errors = [] \<rparr>"

definition failed_step :: "string \<Rightarrow> time \<Rightarrow> time \<Rightarrow> error \<Rightarrow> workflow_step" where
  "failed_step name t0 t1 ex =
     \<lparr> step_name = name, step_status = ''failed'', step_start_time = t0,
       step_end_time = Some t1, duration_ms = None, step_data = [],
       step_errors = [str_of_error ex] \<rparr>"





section \<open>Event dispatcher (orchestrator/dispatcher/event\_dispatcher.py)\<close>

text \<open>
  The trace logger (utils/trace\_logger.py) formats the context of an entry with
  \<^verbatim>\<open>json.dumps\<close> before it writes it; only the write is guarded.  Of the contexts that
  the three components log, the one of \<open>emit\<close> holds a value of type \<open>Any\<close>, the payload:
  \<^verbatim>\<open>json.dumps\<close> raises \<open>TypeError\<close> when a value of the payload is not JSON data.
\<close>

fun json_serialisable :: "pyval \<Rightarrow> bool" where
  "json_serialisable (PDatetime t) = False"
| "json_serialisable v = True"

definition json_dumps :: "pydict \<Rightarrow> error option" where
  "json_dumps pl =
     (if list_all json_serialisable (map snd pl) then None
      else Some (TypeError ''Object of type datetime is not JSON serializable''))"

text \<open>\<open>Event\<close>; its fields \<open>priority\<close> and \<open>timestamp\<close> carry the prefix \<open>ev_\<close>.\<close>

record event =
  event_id :: string
  event_type :: string
  payload :: pydict
  source :: string
  ev_priority :: int
  ev_timestamp :: time
  processed :: bool

text \<open>
  An \<open>Event\<close> object is shared by the queue and the history, and the delivery loop sets
  its \<open>processed\<close> flag in place: the objects live in \<open>heap\<close>, and the queue and the
  history hold references (positions in \<open>heap\<close>).  \<open>subscribers\<close> is a
  \<^verbatim>\<open>defaultdict(list)\<close>: a total function, a missing key reading the empty list.  A handler
  is a reference to a callable.
\<close>

type_synonym ref = nat
type_synonym handler = string

datatype task_state = Active | Cancelled

record dispatcher =
  subscribers :: "string \<Rightarrow> handler list"
  event_queue :: "ref list"
  event_history :: "ref list"
  heap :: "event list"
  is_running :: bool
  processing_task :: "task_state option"

definition init_dispatcher :: dispatcher where
  "init_dispatcher =
     \<lparr> subscribers = (\<lambda>k. []), event_queue = [], event_history = [], heap = [],
       is_running = False, processing_task = None \<rparr>"

text \<open>
  \<open>emit\<close>: the \<^verbatim>\<open>trace.debug\<close> call, whose context holds the payload, comes before the
  event is queued and recorded; when it raises, the dispatcher is as it was and no id is
  returned.
\<close>

definition emit ::
  "string \<Rightarrow> time \<Rightarrow> string \<Rightarrow> pydict \<Rightarrow> string \<Rightarrow> int \<Rightarrow> dispatcher
     \<Rightarrow> (error + string) \<times> dispatcher" where
  "emit uid now etype pl src prio d =
     (let ev = \<lparr> event_id = uid, event_type = etype, payload = pl, source = src,
                 ev_priority = prio, ev_timestamp = now, processed = False \<rparr>
      in case json_dumps pl of
           Some ex \<Rightarrow> (Inl ex, d)
         | None \<Rightarrow>
             (let r = length (heap d);
                  d1 = d\<lparr> heap := heap d @ [ev], event_queue := event_queue d @ [r],
                          event_history := event_history d @ [r] \<rparr>;
                  d2 = (if length (event_history d1) > 1000
                        then d1\<lparr> event_history := tl (event_history d1) \<rparr> else d1)
              in (Inr (event_id ev), d2)))"

definition start :: "string \<Rightarrow> time \<Rightarrow> dispatcher \<Rightarrow> dispatcher" where
  "start uid now d =
     (if is_running d then d
      else snd (emit uid now ''system.start'' [(''started_at'', PIso now)] ''system'' 0
                  (d\<lparr> is_running := True, processing_task := Some Active \<rparr>)))"

definition stop :: "string \<Rightarrow> time \<Rightarrow> dispatcher \<Rightarrow> dispatcher" where
  "stop uid now d =
     (if \<not> is_running d then d
      else (let d1 = snd (emit uid now ''system.stop'' [(''stopped_at'', PIso now)] ''system'' 0 d)
            in d1\<lparr> is_running := False,
                   processing_task := map_option (\<lambda>t. Cancelled) (processing_task d1) \<rparr>))"

text \<open>
  What a callable is when the dispatcher uses it: \<open>handler_name\<close> is its \<^verbatim>\<open>__name__\<close>,
  \<open>None\<close> for a callable without one (a \<^verbatim>\<open>functools.partial\<close> object); \<open>is_coroutine\<close> is
  \<^verbatim>\<open>asyncio.iscoroutinefunction(handler)\<close>; \<open>call_raises\<close> is the exception, if any, of the
  call \<^verbatim>\<open>handler(event)\<close> that makes the coroutine object; \<open>run\<close> is what awaiting the task
  gives.  Handlers are external: their effect on anything but the outcome is not part
  of the model.
\<close>

datatype outcome = Returns | Raises error

record handler_impl =
  handler_name :: "string option"
  is_coroutine :: bool
  call_raises :: "event \<Rightarrow> error option"
  run :: "event \<Rightarrow> outcome"

text \<open>Reading \<^verbatim>\<open>handler.__name__\<close>.\<close>

definition read_name :: "handler_impl \<Rightarrow> error + string" where
  "read_name impl =
     (case handler_name impl of
        None \<Rightarrow> Inl (AttributeError ''__name__'')
      | Some n \<Rightarrow> Inr n)"

text \<open>
  \<open>subscribe\<close> and \<open>unsubscribe\<close> change the list first and read \<^verbatim>\<open>handler.__name__\<close> for
  the trace entry afterwards: for a callable without a name they raise with the change
  made.
\<close>

definition subscribe ::
  "(handler \<Rightarrow> handler_impl) \<Rightarrow> string \<Rightarrow> handler \<Rightarrow> dispatcher \<Rightarrow> (error + unit) \<times> dispatcher" where
  "subscribe impl etype h d =
     (let d' = d\<lparr> subscribers := (subscribers d)(etype := subscribers d etype @ [h]) \<rparr>
      in case read_name (impl h) of
           Inl ex \<Rightarrow> (Inl ex, d')
         | Inr n \<Rightarrow> (Inr (), d'))"

definition unsubscribe ::
  "(handler \<Rightarrow> handler_impl) \<Rightarrow> string \<Rightarrow> handler \<Rightarrow> dispatcher \<Rightarrow> (error + unit) \<times> dispatcher" where
  "unsubscribe impl etype h d =
     (if h \<in> set (subscribers d etype)
      then (let d' = d\<lparr> subscribers := (subscribers d)(etype := remove1 h (subscribers d etype)) \<rparr>
            in case read_name (impl h) of
                 Inl ex \<Rightarrow> (Inl ex, d')
               | Inr n \<Rightarrow> (Inr (), d'))
      else (Inr (), d))"

text \<open>
  The three calls of \<^verbatim>\<open>trace.error\<close> in the loop: a task that could not be created (with
  the handler's name), a handler that failed (with its index among the awaited tasks),
  and the \<^verbatim>\<open>except\<close> block of the loop itself.
\<close>

datatype log_entry =
    ErrorCreatingTask string error
  | HandlerFailed nat error
  | ErrorInLoop error

definition create_task :: "handler_impl \<Rightarrow> event \<Rightarrow> error option" where
  "create_task impl ev = (if is_coroutine impl then call_raises impl ev else None)"

text \<open>
  The \<^verbatim>\<open>for\<close> loop that creates the tasks, with the tasks and the log entries so far.  When
  a call raises, the \<^verbatim>\<open>except\<close> block logs it under \<^verbatim>\<open>handler.__name__\<close>; for a callable
  without a name that read raises \<open>AttributeError\<close> out of the \<^verbatim>\<open>for\<close> loop.
\<close>

fun create_tasks ::
  "(handler \<Rightarrow> handler_impl) \<Rightarrow> event \<Rightarrow> handler list \<Rightarrow> handler list \<Rightarrow> log_entry list
     \<Rightarrow> error option \<times> handler list \<times> log_entry list" where
  "create_tasks impl ev [] tasks lg = (None, tasks, lg)"
| "create_tasks impl ev (h # hs) tasks lg =
     (case create_task (impl h) ev of
        None \<Rightarrow> create_tasks impl ev hs (tasks @ [h]) lg
      | Some e \<Rightarrow>
          (case read_name (impl h) of
             Inl ex \<Rightarrow> (Some ex, tasks, lg)
           | Inr n \<Rightarrow> create_tasks impl ev hs tasks (lg @ [ErrorCreatingTask n e])))"

definition mark_processed :: "ref \<Rightarrow> dispatcher \<Rightarrow> dispatcher" where
  "mark_processed r d = d\<lparr> heap := (heap d)[r := (heap d ! r)\<lparr> processed := True \<rparr>] \<rparr>"

fun failures :: "nat \<Rightarrow> outcome list \<Rightarrow> log_entry list" where
  "failures i [] = []"
| "failures i (Returns # rs) = failures (Suc i) rs"
| "failures i (Raises e # rs) = HandlerFailed i e # failures (Suc i) rs"

text \<open>
  The body of the loop for the event \<open>r\<close> taken from the queue: the handlers whose task
  was awaited, the errors logged, and the dispatcher afterwards.  An exception out of the
  \<^verbatim>\<open>for\<close> loop reaches the \<^verbatim>\<open>except\<close> block of the \<^verbatim>\<open>while\<close> loop, which logs it: the
  tasks created so far are never awaited and the event is not marked processed.
\<close>

definition process_event ::
  "(handler \<Rightarrow> handler_impl) \<Rightarrow> ref \<Rightarrow> dispatcher \<Rightarrow> handler list \<times> log_entry list \<times> dispatcher" where
  "process_event impl r d =
     (let ev = heap d ! r;
          handlers = subscribers d (event_type ev);
          wildcard_handlers = subscribers d ''*'';
          all_handlers = handlers @ wildcard_handlers
      in if all_handlers = [] then ([], [], mark_processed r d)
         else
           (case create_tasks impl ev all_handlers [] [] of
              (Some ex, tasks, lg) \<Rightarrow> ([], lg @ [ErrorInLoop ex], d)
            | (None, tasks, lg) \<Rightarrow>
                (let results = map (\<lambda>h. run (impl h) ev) tasks
                 in (tasks, lg @ failures 0 results, mark_processed r d))))"

text \<open>
  One iteration of \<^verbatim>\<open>while self.is_running\<close>: an empty queue times out and the loop goes
  on; otherwise the head of the queue is processed.  A delivery is a handler paired with
  the event it was called on.
\<close>

definition process_events_step ::
  "(handler \<Rightarrow> handler_impl) \<Rightarrow> dispatcher
     \<Rightarrow> (handler \<times> ref) list \<times> log_entry list \<times> dispatcher" where
  "process_events_step impl d =
     (case event_queue d of
        [] \<Rightarrow> ([], [], d)
      | r # rest \<Rightarrow>
          (let (tasks, lg, d') = process_event impl r (d\<lparr> event_queue := rest \<rparr>)
           in (map (\<lambda>h. (h, r)) tasks, lg, d')))"

text \<open>The loop, for at most \<open>n\<close> iterations.\<close>

fun process_events ::
  "(handler \<Rightarrow> handler_impl) \<Rightarrow> nat \<Rightarrow> dispatcher
     \<Rightarrow> (handler \<times> ref) list \<times> log_entry list \<times> dispatcher" where
  "process_events impl 0 d = ([], [], d)"
| "process_events impl (Suc n) d =
     (if \<not> is_running d then ([], [], d)
      else (let (dl, lg, d1) = process_events_step impl d;
                (dl', lg', d2) = process_events impl n d1
            in (dl @ dl', lg @ lg', d2)))"

text \<open>The states that the operations of the dispatcher reach from the initial one.\<close>

inductive_set reachable_dispatchers :: "dispatcher set" where
  rd_init: "init_dispatcher \<in> reachable_dispatchers"
| rd_start: "d \<in> reachable_dispatchers \<Longrightarrow> start uid now d \<in> reachable_dispatchers"
| rd_stop: "d \<in> reachable_dispatchers \<Longrightarrow> stop uid now d \<in> reachable_dispatchers"
| rd_subscribe: "d \<in> reachable_dispatchers
    \<Longrightarrow> snd (subscribe impl etype h d) \<in> reachable_dispatchers"
| rd_unsubscribe: "d \<in> reachable_dispatchers
    \<Longrightarrow> snd (unsubscribe impl etype h d) \<in> reachable_dispatchers"
| rd_emit: "d \<in> reachable_dispatchers
    \<Longrightarrow> snd (emit uid now etype pl src prio d) \<in> reachable_dispatchers"
| rd_process: "d \<in> reachable_dispatchers \<Longrightarrow> is_running d
    \<Longrightarrow> snd (snd (process_events_step impl d)) \<in> reachable_dispatchers"

text \<open>
  The deliveries that the subscriptions call for: every subscriber of the event's type
  and every wildcard subscriber whose task could be created, for each event in turn.
\<close>

definition matching_handlers :: "(handler \<Rightarrow> handler_impl) \<Rightarrow> dispatcher \<Rightarrow> ref \<Rightarrow> handler list" where
  "matching_handlers impl d r =
     filter (\<lambda>h. create_task (impl h) (heap d ! r) = None)
       (subscribers d (event_type (heap d ! r)) @ subscribers d ''*'')"

text \<open>
  Well-formedness of the queue: its references are distinct (every \<open>emit\<close> makes a new
  object) and point into the heap.
\<close>

definition dispatcher_wf :: "dispatcher \<Rightarrow> bool" where
  "dispatcher_wf d \<longleftrightarrow>
     distinct (event_queue d) \<and> list_all (\<lambda>r. r < length (heap d)) (event_queue d)"

section \<open>The coordinator with its tasks in flight\<close>

text \<open>
  The coroutines that \<open>assign_task\<close> has handed to the event loop and that have not yet
  finished, next to the coordinator.  \<open>Finish i work uid now\<close> is the end of the unit of
  work of the \<open>i\<close>-th of them.
\<close>

record system =
  coord :: coordinator
  in_flight :: "spawned list"

datatype input =
    Register string time string "string list"
  | Unregister string
  | Assign string time string pydict int
  | Finish nat "error option" string time
  | Heartbeat string time

fun spawn :: "spawned option \<Rightarrow> spawned list" where
  "spawn None = []"
| "spawn (Some x) = [x]"

fun sys_step :: "system \<Rightarrow> input \<Rightarrow> system" where
  "sys_step s (Register hex8 now atype caps) =
     s\<lparr> coord := snd (register_agent hex8 now atype caps (coord s)) \<rparr>"
| "sys_step s (Unregister aid) = s\<lparr> coord := unregister_agent aid (coord s) \<rparr>"
| "sys_step s (Assign uid now ttype tdata prio) =
     (let (tid, sp, c') = assign_task uid now ttype tdata prio (coord s)
      in \<lparr> coord = c', in_flight = in_flight s @ spawn sp \<rparr>)"
| "sys_step s (Finish i work uid now) =
     (if i < length (in_flight s)
      then (let (aid, tid, tdata) = in_flight s ! i;
                (r, sp, c') = execute_agent_task aid tid tdata work uid now (coord s)
            in \<lparr> coord = c', in_flight = take i (in_flight s) @ drop (Suc i) (in_flight s) @ spawn sp \<rparr>)
      else s)"
| "sys_step s (Heartbeat aid now) = s\<lparr> coord := heartbeat aid now (coord s) \<rparr>"

definition init_system :: system where
  "init_system = \<lparr> coord = init_coordinator, in_flight = [] \<rparr>"

text \<open>The uuid that an input makes \<open>assign_task\<close> draw.\<close>

fun drawn :: "input \<Rightarrow> string list" where
  "drawn (Assign uid now ttype tdata prio) = [uid]"
| "drawn (Finish i work uid now) = [uid]"
| "drawn other = []"

text \<open>The ids of the tasks in flight.\<close>

definition flight_ids :: "system \<Rightarrow> string set" where
  "flight_ids s = (\<lambda>(aid, tid, td). tid) ` set (in_flight s)"

section \<open>Example states\<close>

text \<open>
  One worker with capability \<open>x\<close>; the same with a first task assigned; the same with a
  second task of type \<open>x\<close> assigned while the worker is busy.  Two workers with capability
  \<open>x\<close>, the first of them busy.
\<close>

abbreviation one_agent :: coordinator where
  "one_agent \<equiv> snd (register_agent ''0a1b2c3d'' 0 ''worker'' [''x''] init_coordinator)"

abbreviation one_busy :: coordinator where
  "one_busy \<equiv> snd (snd (assign_task ''t1'' 1 ''x'' [] 0 one_agent))"

abbreviation one_busy_one_queued :: coordinator where
  "one_busy_one_queued \<equiv> snd (snd (assign_task ''t2'' 2 ''x'' [] 0 one_busy))"

abbreviation two_agents_one_busy :: coordinator where
  "two_agents_one_busy \<equiv>
     snd (snd (assign_task ''t1'' 2 ''x'' [] 0
       (snd (register_agent ''22222222'' 1 ''worker'' [''x'']
         (snd (register_agent ''11111111'' 0 ''worker'' [''x''] init_coordinator))))))"

text \<open>
  The single worker after its first task has completed (the nested \<open>assign_task\<close> draws
  \<open>t3\<close>), and after the task then in flight has completed as well.
\<close>

abbreviation first_completed :: coordinator where
  "first_completed \<equiv>
     snd (snd (execute_agent_task ''worker_0a1b2c3d'' ''t1'' [] None ''t3'' 3 one_busy_one_queued))"

abbreviation all_completed :: coordinator where
  "all_completed \<equiv>
     snd (snd (execute_agent_task ''worker_0a1b2c3d'' ''t3'' [] None ''t4'' 4 first_completed))"

text \<open>
  The single worker after the unit of work of its first task has raised; and the
  coordinator when the worker is unregistered while its first task is in flight.
\<close>

abbreviation unregistered_in_flight :: coordinator where
  "unregistered_in_flight \<equiv> unregister_agent ''worker_0a1b2c3d'' one_busy_one_queued"

abbreviation first_failed :: coordinator where
  "first_failed \<equiv>
     snd (snd (execute_agent_task ''worker_0a1b2c3d'' ''t1'' [] (Some (Raised ''boom'')) ''t3'' 3
                 one_busy_one_queued))"

text \<open>
  An engine with one execution created for user \<open>u1\<close>; the same after the execution has
  run with the stage bodies of the source.  The stage bodies of the source with a
  perception stage that raises, and with an intervention stage that reports a low
  priority.
\<close>

abbreviation one_workflow :: engine where
  "one_workflow \<equiv> snd (create_workflow ''w1'' 0 ''u1'' ''data_processing'' init_engine)"


abbreviation perception_raises :: stages where
  "perception_raises \<equiv> (source_stages 1)\<lparr> perception := (\<lambda>state. Inl (Raised ''sensor offline'')) \<rparr>"


text \<open>
  Callables: \<open>broken\<close> always raises when awaited; \<open>partial\<close> is a \<^verbatim>\<open>functools.partial\<close> of
  a coroutine function that takes no argument (it has no \<^verbatim>\<open>__name__\<close>, and calling it
  with the event raises \<open>TypeError\<close>); every other callable is a coroutine function that
  returns.
\<close>

abbreviation example_impl :: "handler \<Rightarrow> handler_impl" where
  "example_impl \<equiv>
     (\<lambda>h. \<lparr> handler_name = (if h = ''partial'' then None else Some h),
            is_coroutine = True,
            call_raises = (\<lambda>ev. if h = ''partial''
                                then Some (TypeError ''f() takes 0 positional arguments but 1 was given'')
                                else None),
            run = (\<lambda>ev. if h = ''broken'' then Raises (Raised ''boom'') else Returns) \<rparr>)"

text \<open>
  A running dispatcher with the always-raising subscriber and a second subscriber on
  \<open>alert.raised\<close>, a wildcard subscriber, and two events published.
\<close>

abbreviation two_alerts :: dispatcher where
  "two_alerts \<equiv>
     snd (emit ''e2'' 2 ''alert.raised'' [(''user_id'', PStr ''u2'')] ''system'' 0
       (snd (emit ''e1'' 1 ''alert.raised'' [(''user_id'', PStr ''u1'')] ''system'' 0
         (snd (subscribe example_impl ''*'' ''audit''
           (snd (subscribe example_impl ''alert.raised'' ''notify''
             (snd (subscribe example_impl ''alert.raised'' ''broken''
               (init_dispatcher\<lparr> is_running := True \<rparr>))))))))))"

text \<open>
  A running dispatcher with the nameless callable and a second subscriber on
  \<open>alert.raised\<close>, and one event published.
\<close>

abbreviation partial_subscribed :: dispatcher where
  "partial_subscribed \<equiv>
     snd (subscribe example_impl ''alert.raised'' ''notify''
       (snd (subscribe example_impl ''alert.raised'' ''partial''
         (init_dispatcher\<lparr> is_running := True \<rparr>))))"

abbreviation one_alert :: dispatcher where
  "one_alert \<equiv>
     snd (emit ''e1'' 1 ''alert.raised'' [(''user_id'', PStr ''u1'')] ''system'' 0 partial_subscribed)"

section \<open>Properties of the agent coordinator\<close>

lemmas coordinator_defs =
  register_agent_def assign_task_def execute_agent_task_def complete_task_def
  fail_task_def suitable_agents_def init_coordinator_def AgentInfo_def get_task_result_def

lemma min_from_mem: "min_from f b xs \<in> set (b # xs)"
  by (induction xs arbitrary: b) auto

lemma min_from_le: "\<forall>x \<in> set (b # xs). f (min_from f b xs) \<le> f x"
proof (induction xs arbitrary: b)
  case Nil
  then show ?case by simp
next
  case (Cons y ys)
  show ?case
  proof (cases "f y < f b")
    case True
    have "f (min_from f y ys) \<le> f y" using Cons.IH[of y] by simp
    with True Cons.IH[of y] show ?thesis by auto
  next
    case False
    with Cons.IH[of b] show ?thesis by auto
  qed
qed

lemma wf_lookup:
  assumes "coordinator_wf c" and "(k, a) \<in> set (agents c)"
  shows "map_of (agents c) k = Some a" and "agent_id a = k"
proof -
  from assms show "map_of (agents c) k = Some a"
    by (simp add: coordinator_wf_def)
  from assms have "map (\<lambda>(k, a). agent_id a) (agents c) = map fst (agents c)"
    by (simp add: coordinator_wf_def)
  then have "\<forall>p \<in> set (agents c). (\<lambda>(k, a). agent_id a) p = fst p"
    by (simp add: map_eq_conv)
  with assms(2) show "agent_id a = k" by fastforce
qed

lemma suitable_set:
  "set (suitable_agents c ttype) =
     {(k, a). (k, a) \<in> set (agents c) \<and> ttype \<in> set (capabilities a) \<and> status a = ''idle''}"
  by (auto simp: suitable_agents_def)

lemma selected_agent:
  assumes wf: "coordinator_wf c"
    and sss: "suitable_agents c ttype = s # ss"
    and ka: "min_from (\<lambda>(k, a). agent_load c (agent_id a)) s ss = (k, a)"
  shows "map_of (agents c) k = Some a" and "agent_id a = k" and "status a = ''idle''"
    and "ttype \<in> set (capabilities a)"
    and "\<And>k' b. map_of (agents c) k' = Some b \<Longrightarrow> status b = ''idle''
            \<Longrightarrow> ttype \<in> set (capabilities b) \<Longrightarrow> agent_load c k \<le> agent_load c k'"
proof -
  define key where "key = (\<lambda>(k :: string, a :: agent_info). agent_load c (agent_id a))"
  have ka': "min_from key s ss = (k, a)" using ka by (simp add: key_def)
  have mem: "(k, a) \<in> set (suitable_agents c ttype)"
    using min_from_mem[of key s ss] ka' sss by simp
  then have in_agents: "(k, a) \<in> set (agents c)"
    by (auto simp: suitable_set)
  from mem show "status a = ''idle''" and "ttype \<in> set (capabilities a)"
    by (auto simp: suitable_set)
  show look: "map_of (agents c) k = Some a" and aid: "agent_id a = k"
    using wf_lookup[OF wf in_agents] by auto
  show "agent_load c k \<le> agent_load c k'"
    if "map_of (agents c) k' = Some b" "status b = ''idle''" "ttype \<in> set (capabilities b)"
    for k' b
  proof -
    from that have inb: "(k', b) \<in> set (agents c)" by (auto dest: map_of_SomeD)
    then have "(k', b) \<in> set (s # ss)" using that sss[symmetric] by (simp add: suitable_set)
    then have "key (min_from key s ss) \<le> key (k', b)" using min_from_le[of s ss key] by blast
    moreover have "agent_id b = k'" using wf_lookup[OF wf inb] by simp
    ultimately show ?thesis using ka' aid by (simp add: key_def)
  qed
qed

lemma assign_task_selected:
  assumes wf: "coordinator_wf c" and ne: "suitable_agents c ttype \<noteq> []"
  obtains k a where "map_of (agents c) k = Some a" and "agent_id a = k"
    and "status a = ''idle''" and "ttype \<in> set (capabilities a)"
    and "\<And>k' b. map_of (agents c) k' = Some b \<Longrightarrow> status b = ''idle''
            \<Longrightarrow> ttype \<in> set (capabilities b) \<Longrightarrow> agent_load c k \<le> agent_load c k'"
    and "assign_task uid now ttype tdata prio c =
           (uid, Some (k, uid, tdata),
            c\<lparr> agents := AList.update k (a\<lparr> status := ''busy'', current_task := Some uid \<rparr>)
                           (agents c),
               agent_load := (agent_load c)(k := agent_load c k + 1) \<rparr>)"
proof -
  from ne obtain s ss where sss: "suitable_agents c ttype = s # ss"
    by (cases "suitable_agents c ttype") auto
  obtain k a where ka: "min_from (\<lambda>(k, a). agent_load c (agent_id a)) s ss = (k, a)"
    by (cases "min_from (\<lambda>(k, a). agent_load c (agent_id a)) s ss")
  note sel = selected_agent[OF wf sss ka]
  have "assign_task uid now ttype tdata prio c =
           (uid, Some (k, uid, tdata),
            c\<lparr> agents := AList.update k (a\<lparr> status := ''busy'', current_task := Some uid \<rparr>)
                           (agents c),
               agent_load := (agent_load c)(k := agent_load c k + 1) \<rparr>)"
    using sss ka sel(2) by (simp add: assign_task_def)
  with sel that show thesis by blast
qed

text \<open>
  Claim C6.  \<open>assign_task\<close> never gives a task to a busy agent.  When some idle agent has
  the task type among its capabilities, the task goes to one of them whose load is least:
  that agent becomes busy with the task and its load counter goes up by one, and every
  other agent is left as it was.  When there is none, the task is appended to the end of
  the overflow queue and the registry is left as it was.
\<close>

theorem assign_task_idle_least_loaded:
  assumes wf: "coordinator_wf c"
  shows "(suitable_agents c ttype = [] \<longleftrightarrow>
            \<not> (\<exists>k a. map_of (agents c) k = Some a \<and> status a = ''idle'' \<and> ttype \<in> set (capabilities a)))
    \<and> (suitable_agents c ttype = [] \<longrightarrow>
         assign_task uid now ttype tdata prio c =
           (uid, None,
            c\<lparr> task_queue := task_queue c @
                  [\<lparr> task_id = uid, task_type = ttype, task_data = tdata,
                     priority = prio, queued_at = now \<rparr>] \<rparr>))
    \<and> (suitable_agents c ttype \<noteq> [] \<longrightarrow>
         (\<exists>k a. map_of (agents c) k = Some a \<and> agent_id a = k
            \<and> status a = ''idle'' \<and> status a \<noteq> ''busy'' \<and> ttype \<in> set (capabilities a)
            \<and> (\<forall>k' b. map_of (agents c) k' = Some b \<and> status b = ''idle''
                         \<and> ttype \<in> set (capabilities b)
                  \<longrightarrow> agent_load c k \<le> agent_load c k')
            \<and> assign_task uid now ttype tdata prio c =
                (uid, Some (k, uid, tdata),
                 c\<lparr> agents := AList.update k (a\<lparr> status := ''busy'', current_task := Some uid \<rparr>)
                                (agents c),
                    agent_load := (agent_load c)(k := agent_load c k + 1) \<rparr>)
            \<and> map_of (agents (snd (snd (assign_task uid now ttype tdata prio c)))) =
                (map_of (agents c))(k \<mapsto> a\<lparr> status := ''busy'', current_task := Some uid \<rparr>)
            \<and> map fst (agents (snd (snd (assign_task uid now ttype tdata prio c)))) =
                map fst (agents c)))"
proof (intro conjI impI)
  have dist: "distinct (map fst (agents c))" using wf by (simp add: coordinator_wf_def)
  show "suitable_agents c ttype = [] \<longleftrightarrow>
        \<not> (\<exists>k a. map_of (agents c) k = Some a \<and> status a = ''idle'' \<and> ttype \<in> set (capabilities a))"
  proof -
    have "suitable_agents c ttype = [] \<longleftrightarrow> set (suitable_agents c ttype) = {}" by simp
    also have "\<dots> \<longleftrightarrow> \<not> (\<exists>k a. (k, a) \<in> set (agents c) \<and> status a = ''idle''
                              \<and> ttype \<in> set (capabilities a))"
      unfolding suitable_set by auto
    also have "\<dots> \<longleftrightarrow> \<not> (\<exists>k a. map_of (agents c) k = Some a \<and> status a = ''idle''
                              \<and> ttype \<in> set (capabilities a))"
      using dist by simp
    finally show ?thesis .
  qed
next
  assume "suitable_agents c ttype = []"
  then show "assign_task uid now ttype tdata prio c =
           (uid, None,
            c\<lparr> task_queue := task_queue c @
                  [\<lparr> task_id = uid, task_type = ttype, task_data = tdata,
                     priority = prio, queued_at = now \<rparr>] \<rparr>)"
    by (simp add: assign_task_def)
next
  assume ne: "suitable_agents c ttype \<noteq> []"
  from assign_task_selected[OF wf ne, of uid now tdata prio]
  obtain k a where look: "map_of (agents c) k = Some a" and aid: "agent_id a = k"
    and idle: "status a = ''idle''" and cap: "ttype \<in> set (capabilities a)"
    and least: "\<And>k' b. map_of (agents c) k' = Some b \<Longrightarrow> status b = ''idle''
            \<Longrightarrow> ttype \<in> set (capabilities b) \<Longrightarrow> agent_load c k \<le> agent_load c k'"
    and res: "assign_task uid now ttype tdata prio c =
           (uid, Some (k, uid, tdata),
            c\<lparr> agents := AList.update k (a\<lparr> status := ''busy'', current_task := Some uid \<rparr>)
                           (agents c),
               agent_load := (agent_load c)(k := agent_load c k + 1) \<rparr>)"
    by blast
  have kin: "k \<in> fst ` set (agents c)" using look by (force dest: map_of_SomeD)
  show "\<exists>k a. map_of (agents c) k = Some a \<and> agent_id a = k
            \<and> status a = ''idle'' \<and> status a \<noteq> ''busy'' \<and> ttype \<in> set (capabilities a)
            \<and> (\<forall>k' b. map_of (agents c) k' = Some b \<and> status b = ''idle''
                         \<and> ttype \<in> set (capabilities b)
                  \<longrightarrow> agent_load c k \<le> agent_load c k')
            \<and> assign_task uid now ttype tdata prio c =
                (uid, Some (k, uid, tdata),
                 c\<lparr> agents := AList.update k (a\<lparr> status := ''busy'', current_task := Some uid \<rparr>)
                                (agents c),
                    agent_load := (agent_load c)(k := agent_load c k + 1) \<rparr>)
            \<and> map_of (agents (snd (snd (assign_task uid now ttype tdata prio c)))) =
                (map_of (agents c))(k \<mapsto> a\<lparr> status := ''busy'', current_task := Some uid \<rparr>)
            \<and> map fst (agents (snd (snd (assign_task uid now ttype tdata prio c)))) =
                map fst (agents c)"
    apply (rule exI[of _ k], rule exI[of _ a])
    using look aid idle cap least res kin
    by (simp add: AList.update_conv' AList.update_keys)
qed

lemma two_agents_one_busy_agents:
  "agents two_agents_one_busy =
     [(''worker_11111111'', (AgentInfo ''worker_11111111'' ''worker'' [''x''] 0)
          \<lparr> status := ''busy'', current_task := Some ''t1'' \<rparr>),
      (''worker_22222222'', AgentInfo ''worker_22222222'' ''worker'' [''x''] 1)]"
  by (simp add: coordinator_defs Let_def)

theorem assign_task_idle_least_loaded_witness:
  "coordinator_wf two_agents_one_busy
   \<and> map (\<lambda>(k, a). (k, status a)) (agents two_agents_one_busy)
       = [(''worker_11111111'', ''busy''), (''worker_22222222'', ''idle'')]
   \<and> fst (snd (assign_task ''t2'' 3 ''x'' [] 0 two_agents_one_busy))
       = Some (''worker_22222222'', ''t2'', [])
   \<and> fst (snd (assign_task ''t3'' 4 ''y'' [] 0 two_agents_one_busy)) = None
   \<and> map task_id (task_queue (snd (snd (assign_task ''t3'' 4 ''y'' [] 0 two_agents_one_busy))))
       = [''t3'']"
proof -
  have wf: "coordinator_wf two_agents_one_busy"
    unfolding coordinator_wf_def two_agents_one_busy_agents by (simp add: AgentInfo_def)
  have st: "map (\<lambda>(k, a). (k, status a)) (agents two_agents_one_busy)
       = [(''worker_11111111'', ''busy''), (''worker_22222222'', ''idle'')]"
    unfolding two_agents_one_busy_agents by (simp add: AgentInfo_def)
  have sx: "suitable_agents two_agents_one_busy ''x'' \<noteq> []"
    unfolding suitable_agents_def two_agents_one_busy_agents by (simp add: AgentInfo_def)
  have sy: "suitable_agents two_agents_one_busy ''y'' = []"
    unfolding suitable_agents_def two_agents_one_busy_agents by (simp add: AgentInfo_def)
  from assign_task_idle_least_loaded [OF wf, of "''x''" "''t2''" 3 "[]" 0] sx
  obtain k a where ka: "map_of (agents two_agents_one_busy) k = Some a" "status a = ''idle''"
    and r: "assign_task ''t2'' 3 ''x'' [] 0 two_agents_one_busy =
              (''t2'', Some (k, ''t2'', []),
               two_agents_one_busy\<lparr> agents := AList.update k (a\<lparr> status := ''busy'', current_task := Some ''t2'' \<rparr>)
                                (agents two_agents_one_busy),
                    agent_load := (agent_load two_agents_one_busy)(k := agent_load two_agents_one_busy k + 1) \<rparr>)"
    by blast
  from ka have "k = ''worker_22222222''"
    unfolding two_agents_one_busy_agents by (auto simp: AgentInfo_def split: if_splits)
  with r have x: "fst (snd (assign_task ''t2'' 3 ''x'' [] 0 two_agents_one_busy))
       = Some (''worker_22222222'', ''t2'', [])" by simp
  from assign_task_idle_least_loaded [OF wf, of "''y''" "''t3''" 4 "[]" 0] sy
  have "assign_task ''t3'' 4 ''y'' [] 0 two_agents_one_busy =
           (''t3'', None,
            two_agents_one_busy\<lparr> task_queue := task_queue two_agents_one_busy @
                  [\<lparr> task_id = ''t3'', task_type = ''y'', task_data = [],
                     priority = 0, queued_at = 4 \<rparr>] \<rparr>)" by blast
  moreover have "task_queue two_agents_one_busy = []" by (simp add: coordinator_defs Let_def)
  ultimately have y: "fst (snd (assign_task ''t3'' 4 ''y'' [] 0 two_agents_one_busy)) = None
   \<and> map task_id (task_queue (snd (snd (assign_task ''t3'' 4 ''y'' [] 0 two_agents_one_busy))))
       = [''t3'']" by simp
  from wf st x y show ?thesis by blast
qed

text \<open>
  Claim C10.  \<open>heartbeat\<close> for an id that is not registered leaves the whole coordinator
  unchanged.  For a registered id it changes the \<open>last_heartbeat\<close> field of that agent and
  nothing else: no other field of the agent, no other agent, not the order of the
  registry, no load counter, no task result and no queue entry.
\<close>

theorem heartbeat_frame:
  "(map_of (agents c) aid = None \<longrightarrow> heartbeat aid now c = c) \<and>
   (\<forall>a. map_of (agents c) aid = Some a \<longrightarrow>
      map_of (agents (heartbeat aid now c)) = (map_of (agents c))(aid \<mapsto> a\<lparr> last_heartbeat := now \<rparr>)
    \<and> map fst (agents (heartbeat aid now c)) = map fst (agents c)
    \<and> task_queue (heartbeat aid now c) = task_queue c
    \<and> task_results (heartbeat aid now c) = task_results c
    \<and> agent_load (heartbeat aid now c) = agent_load c)"
proof -
  have mem: "\<And>a. map_of (agents c) aid = Some a \<Longrightarrow> aid \<in> fst ` set (agents c)"
    by (metis map_of_eq_None_iff option.distinct(1))
  show ?thesis
    using mem by (auto simp: heartbeat_def AList.update_conv' AList.update_keys)
qed

theorem heartbeat_frame_witness:
  "map_of (agents init_coordinator) ''ghost'' = None
   \<and> heartbeat ''ghost'' 7 init_coordinator = init_coordinator
   \<and> map_of (agents (snd (register_agent ''0a'' 1 ''w'' [''x''] init_coordinator))) ''w_0a''
       = Some (AgentInfo ''w_0a'' ''w'' [''x''] 1)
   \<and> map_of (agents (heartbeat ''w_0a'' 7 (snd (register_agent ''0a'' 1 ''w'' [''x''] init_coordinator)))) ''w_0a''
       = Some ((AgentInfo ''w_0a'' ''w'' [''x''] 1)\<lparr> last_heartbeat := 7 \<rparr>)"
  using heartbeat_frame [of init_coordinator "''ghost''" 7]
    heartbeat_frame [of "snd (register_agent ''0a'' 1 ''w'' [''x''] init_coordinator)" "''w_0a''" 7]
  by (simp add: init_coordinator_def register_agent_def Let_def)

text \<open>
  Claim C1, evaluated on the source.  A task of type \<open>x\<close> assigned while the only capable
  worker is busy is queued and \<open>t2\<close> is returned for it.  When the first task completes, the
  queued task is given to \<open>assign_task\<close> again, which draws a new id \<open>t3\<close> for it; the id
  in the queue entry is not read.  The result of that task is recorded under \<open>t3\<close>, and
  \<open>get_task_result\<close> on the returned id \<open>t2\<close> is \<open>None\<close> before and after the task has
  completed, with the queue empty and the worker idle.
\<close>

theorem queued_task_id_gets_no_result:
  "assign_task ''t1'' 1 ''x'' [] 0 one_agent = (''t1'', Some (''worker_0a1b2c3d'', ''t1'', []), one_busy)
   \<and> fst (assign_task ''t2'' 2 ''x'' [] 0 one_busy) = ''t2''
   \<and> fst (snd (assign_task ''t2'' 2 ''x'' [] 0 one_busy)) = None
   \<and> map task_id (task_queue one_busy_one_queued) = [''t2'']
   \<and> get_task_result ''t2'' one_busy_one_queued = None
   \<and> fst (snd (execute_agent_task ''worker_0a1b2c3d'' ''t1'' [] None ''t3'' 3 one_busy_one_queued))
        = Some (''worker_0a1b2c3d'', ''t3'', [])
   \<and> task_queue first_completed = []
   \<and> get_task_result ''t2'' first_completed = None
   \<and> fst (snd (execute_agent_task ''worker_0a1b2c3d'' ''t3'' [] None ''t4'' 4 first_completed)) = None
   \<and> task_queue all_completed = []
   \<and> map (\<lambda>(k, a). (status a, current_task a)) (agents all_completed) = [(''idle'', None)]
   \<and> get_task_result ''t1'' all_completed = Some (TaskCompleted [] 3 ''worker_0a1b2c3d'')
   \<and> get_task_result ''t3'' all_completed = Some (TaskCompleted [] 4 ''worker_0a1b2c3d'')
   \<and> get_task_result ''t2'' all_completed = None"
  by (simp add: coordinator_defs Let_def)

text \<open>
  Claim C2, evaluated on the source.  The unit of work of the first task raises while a
  second task is queued: the worker returns to idle with its task cleared, its failed
  counter goes up, its load goes down, the failure is recorded under the task id; but no
  queued task is submitted again: the queue still holds \<open>t2\<close>, although the worker is idle
  and capable.  And when the worker has been unregistered while its task was in flight,
  both blocks raise \<open>KeyError\<close>: no result is recorded and the queue is not looked at.
\<close>

theorem failed_task_leaves_queue_undrained:
  "map task_id (task_queue one_busy_one_queued) = [''t2'']
   \<and> fst (execute_agent_task ''worker_0a1b2c3d'' ''t1'' [] (Some (Raised ''boom'')) ''t3'' 3
            one_busy_one_queued) = Inr ()
   \<and> fst (snd (execute_agent_task ''worker_0a1b2c3d'' ''t1'' [] (Some (Raised ''boom'')) ''t3'' 3
            one_busy_one_queued)) = None
   \<and> map (\<lambda>(k, a). (status a, current_task a, tasks_completed a, tasks_failed a))
        (agents first_failed) = [(''idle'', None, 0, 1)]
   \<and> agent_load first_failed ''worker_0a1b2c3d'' = 0
   \<and> get_task_result ''t1'' first_failed = Some (TaskFailed ''boom'' 3 ''worker_0a1b2c3d'')
   \<and> map task_id (task_queue first_failed) = [''t2'']
   \<and> suitable_agents first_failed ''x'' \<noteq> []
   \<and> execute_agent_task ''worker_0a1b2c3d'' ''t1'' [] None ''t3'' 3 unregistered_in_flight =
       (Inl (KeyError ''worker_0a1b2c3d''), None, unregistered_in_flight)
   \<and> get_task_result ''t1'' unregistered_in_flight = None
   \<and> map task_id (task_queue unregistered_in_flight) = [''t2'']"
  by (simp add: coordinator_defs unregister_agent_def Let_def)

subsection \<open>Where results are recorded\<close>

text \<open>
  A result is only ever recorded under the id of a task in flight, and the id of a task
  in flight is the one that \<open>assign_task\<close> drew when it selected the agent.  So an id that
  is neither recorded nor in flight (such as the id returned for a queued task) stays
  without a result, whatever happens afterwards, unless the generator draws it again.
\<close>

lemma assign_task_results: "task_results (snd (snd (assign_task uid now ttype tdata prio c))) = task_results c"
  by (simp add: assign_task_def Let_def split: list.splits prod.splits)

lemma assign_task_spawned:
  "fst (snd (assign_task uid now ttype tdata prio c)) = Some (aid, tid, td) \<Longrightarrow> tid = uid"
  by (auto simp: assign_task_def Let_def split: list.splits prod.splits)

lemma execute_agent_task_results:
  "dom (task_results (snd (snd (execute_agent_task aid tid tdata work uid now c))))
     \<subseteq> insert tid (dom (task_results c))"
proof (cases "map_of (agents c) aid")
  case None
  then show ?thesis
    by (auto simp: execute_agent_task_def complete_task_def fail_task_def split: option.splits)
next
  case (Some a)
  show ?thesis
  proof (cases work)
    case (Some e)
    with \<open>map_of (agents c) aid = Some a\<close> show ?thesis
      by (auto simp: execute_agent_task_def fail_task_def)
  next
    case None
    show ?thesis
    proof (cases "task_queue c")
      case Nil
      with None \<open>map_of (agents c) aid = Some a\<close> show ?thesis
        by (auto simp: execute_agent_task_def complete_task_def)
    next
      case (Cons q rest)
      define c1 where "c1 = c\<lparr> agents := AList.update aid
                     (a\<lparr> status := ''idle'', current_task := None,
                        tasks_completed := tasks_completed a + 1 \<rparr>) (agents c),
                  agent_load := (agent_load c)(aid := agent_load c aid - 1),
                  task_results := (task_results c)(tid \<mapsto> TaskCompleted tdata now aid),
                  task_queue := rest \<rparr>"
      have "snd (snd (execute_agent_task aid tid tdata work uid now c)) =
              snd (snd (assign_task uid now (task_type q) (task_data q) (priority q) c1))"
        using None Cons \<open>map_of (agents c) aid = Some a\<close>
        by (simp add: execute_agent_task_def complete_task_def c1_def split: prod.splits)
      then have "task_results (snd (snd (execute_agent_task aid tid tdata work uid now c))) =
                   task_results c1"
        by (simp add: assign_task_results)
      then show ?thesis by (auto simp: c1_def)
    qed
  qed
qed

lemma execute_agent_task_spawned:
  "fst (snd (execute_agent_task aid tid tdata work uid now c)) = Some (aid', tid', td) \<Longrightarrow> tid' = uid"
  by (auto simp: execute_agent_task_def complete_task_def fail_task_def Let_def
        split: option.splits sum.splits list.splits prod.splits
        dest!: arg_cong[where f="\<lambda>p. fst (snd p)"] dest: assign_task_spawned)

text \<open>
  On the success path the agent is reset, the result is recorded, and the head of the
  queue, if there is one, goes through \<open>assign_task\<close>.
\<close>

lemma completed_task_drains_one:
  assumes "map_of (agents c) aid = Some a"
  shows "task_queue c = [] \<Longrightarrow>
           execute_agent_task aid tid tdata None uid now c =
             (Inr (), None,
              c\<lparr> agents := AList.update aid
                     (a\<lparr> status := ''idle'', current_task := None,
                        tasks_completed := tasks_completed a + 1 \<rparr>) (agents c),
                 agent_load := (agent_load c)(aid := agent_load c aid - 1),
                 task_results := (task_results c)(tid \<mapsto> TaskCompleted tdata now aid) \<rparr>)"
    and "task_queue c = q # rest \<Longrightarrow>
           execute_agent_task aid tid tdata None uid now c =
             (Inr (),
              snd (assign_task uid now (task_type q) (task_data q) (priority q)
                (c\<lparr> agents := AList.update aid
                       (a\<lparr> status := ''idle'', current_task := None,
                          tasks_completed := tasks_completed a + 1 \<rparr>) (agents c),
                    agent_load := (agent_load c)(aid := agent_load c aid - 1),
                    task_results := (task_results c)(tid \<mapsto> TaskCompleted tdata now aid),
                    task_queue := rest \<rparr>)))"
  using assms
  by (simp_all add: execute_agent_task_def complete_task_def case_prod_beta)

text \<open>On the failure path the queue is never touched and nothing is spawned.\<close>

lemma failed_task_never_drains:
  assumes "map_of (agents c) aid = Some a"
  shows "execute_agent_task aid tid tdata (Some e) uid now c =
           (Inr (), None,
            c\<lparr> agents := AList.update aid
                   (a\<lparr> status := ''idle'', current_task := None,
                      tasks_failed := tasks_failed a + 1 \<rparr>) (agents c),
               agent_load := (agent_load c)(aid := agent_load c aid - 1),
               task_results := (task_results c)(tid \<mapsto> TaskFailed (str_of_error e) now aid) \<rparr>)"
    and "task_queue (snd (snd (execute_agent_task aid tid tdata (Some e) uid now c))) = task_queue c"
  using assms by (simp_all add: execute_agent_task_def fail_task_def)

lemma sys_step_results:
  "dom (task_results (coord (sys_step s i))) \<subseteq> dom (task_results (coord s)) \<union> flight_ids s"
proof (cases i)
  case (Assign uid now ttype tdata prio)
  then show ?thesis
    using assign_task_results[of uid now ttype tdata prio "coord s"]
    by (auto simp: Let_def split: prod.splits)
next
  case (Finish n work uid now)
  show ?thesis
  proof (cases "n < length (in_flight s)")
    case True
    obtain aid tid td where nth: "in_flight s ! n = (aid, tid, td)" by (cases "in_flight s ! n")
    then have "tid \<in> flight_ids s" using True
      by (force simp: flight_ids_def in_set_conv_nth)
    moreover have "coord (sys_step s i) = snd (snd (execute_agent_task aid tid td work uid now (coord s)))"
      using Finish True nth by (simp add: Let_def split: prod.splits)
    ultimately show ?thesis using execute_agent_task_results[of aid tid td work uid now "coord s"]
      by auto
  next
    case False
    with Finish show ?thesis by simp
  qed
qed (auto simp: register_agent_def unregister_agent_def heartbeat_def Let_def split: option.splits)

lemma sys_step_flight:
  "flight_ids (sys_step s i) \<subseteq> flight_ids s \<union> set (drawn i)"
proof (cases i)
  case (Assign uid now ttype tdata prio)
  obtain t sp c' where r: "assign_task uid now ttype tdata prio (coord s) = (t, sp, c')"
    by (cases "assign_task uid now ttype tdata prio (coord s)") auto
  then have "\<And>aid tid td. sp = Some (aid, tid, td) \<Longrightarrow> tid = uid"
    using assign_task_spawned[of uid now ttype tdata prio "coord s"] by simp
  then show ?thesis using Assign r
    by (cases sp) (force simp: flight_ids_def)+
next
  case (Finish n work uid now)
  show ?thesis
  proof (cases "n < length (in_flight s)")
    case True
    obtain aid tid td where nth: "in_flight s ! n = (aid, tid, td)" by (cases "in_flight s ! n")
    obtain r sp c' where ex: "execute_agent_task aid tid td work uid now (coord s) = (r, sp, c')"
      by (cases "execute_agent_task aid tid td work uid now (coord s)") auto
    then have sp: "\<And>aid' tid' td'. sp = Some (aid', tid', td') \<Longrightarrow> tid' = uid"
      using execute_agent_task_spawned[of aid tid td work uid now "coord s"] by simp
    have fl: "in_flight (sys_step s i) = take n (in_flight s) @ drop (Suc n) (in_flight s) @ spawn sp"
      using Finish True nth ex by simp
    have "set (take n (in_flight s)) \<subseteq> set (in_flight s)" by (rule set_take_subset)
    moreover have "set (drop (Suc n) (in_flight s)) \<subseteq> set (in_flight s)" by (rule set_drop_subset)
    ultimately show ?thesis using sp Finish unfolding flight_ids_def fl
      by (cases sp) force+
  next
    case False
    with Finish show ?thesis by auto
  qed
qed (auto simp: flight_ids_def)

lemma unresolved_forever:
  assumes "tid \<notin> dom (task_results (coord s))" and "tid \<notin> flight_ids s"
    and "tid \<notin> set (concat (map drawn ins))"
  shows "get_task_result tid (coord (foldl sys_step s ins)) = None"
  using assms
proof (induction ins arbitrary: s)
  case Nil
  then show ?case by (auto simp: get_task_result_def)
next
  case (Cons i ins)
  have "tid \<notin> dom (task_results (coord (sys_step s i)))"
    using Cons.prems sys_step_results[of s i] by auto
  moreover have "tid \<notin> flight_ids (sys_step s i)"
    using Cons.prems sys_step_flight[of s i] by auto
  ultimately show ?case using Cons.IH[of "sys_step s i"] Cons.prems by simp
qed

lemma queued_assign_not_in_flight:
  assumes "suitable_agents (coord s) ttype = []"
  shows "in_flight (sys_step s (Assign uid now ttype tdata prio)) = in_flight s"
    and "task_id (last (task_queue (coord (sys_step s (Assign uid now ttype tdata prio))))) = uid"
  using assms by (simp_all add: assign_task_def)


subsection \<open>The registry stays well-formed\<close>

lemma ids_update:
  "map (\<lambda>(k, a). agent_id a) al = map fst al \<Longrightarrow> agent_id v = k
     \<Longrightarrow> map (\<lambda>(k, a :: agent_info). agent_id a) (AList.update k v al) = map fst (AList.update k v al)"
  by (induction al) auto

lemma ids_delete:
  "map (\<lambda>(k, a). agent_id a) al = map fst al
     \<Longrightarrow> map (\<lambda>(k, a :: agent_info). agent_id a) (AList.delete k al) = map fst (AList.delete k al)"
  by (induction al) auto

lemma wf_update:
  assumes "coordinator_wf c" and "agent_id v = k" and "agents c' = AList.update k v (agents c)"
  shows "coordinator_wf c'"
  using assms by (simp add: coordinator_wf_def AList.distinct_update ids_update)

lemma wf_map_of:
  assumes "coordinator_wf c" and "map_of (agents c) k = Some a"
  shows "agent_id a = k"
  using wf_lookup(2)[OF assms(1) map_of_SomeD[OF assms(2)]] .

lemma wf_register: "coordinator_wf c \<Longrightarrow> coordinator_wf (snd (register_agent hex8 now atype caps c))"
  by (rule wf_update[where k="atype @ ''_'' @ hex8" and v="AgentInfo (atype @ ''_'' @ hex8) atype caps now"])
     (simp_all add: register_agent_def AgentInfo_def Let_def)

lemma wf_unregister:
  assumes "coordinator_wf c"
  shows "coordinator_wf (unregister_agent aid c)"
proof -
  from assms have d: "distinct (map fst (agents c))"
    and i: "map (\<lambda>(k, a). agent_id a) (agents c) = map fst (agents c)"
    by (simp_all add: coordinator_wf_def del: map_eq_conv)
  show ?thesis
    unfolding unregister_agent_def coordinator_wf_def
    using AList.distinct_delete[OF d, of aid] ids_delete[OF i, of aid] d i
    by (simp del: map_eq_conv)
qed

lemma wf_heartbeat: "coordinator_wf c \<Longrightarrow> coordinator_wf (heartbeat aid now c)"
proof (cases "map_of (agents c) aid")
  case None
  assume "coordinator_wf c"
  with None show ?thesis by (simp add: heartbeat_def)
next
  case (Some a)
  assume wf: "coordinator_wf c"
  show ?thesis
    by (rule wf_update[OF wf, where k=aid and v="a\<lparr> last_heartbeat := now \<rparr>"])
       (use Some wf_map_of[OF wf Some] in \<open>simp_all add: heartbeat_def\<close>)
qed

lemma wf_queue: "coordinator_wf (c\<lparr> task_queue := q \<rparr>) = coordinator_wf c"
  unfolding coordinator_wf_def by simp

lemma wf_assign:
  assumes wf: "coordinator_wf c"
  shows "coordinator_wf (snd (snd (assign_task uid now ttype tdata prio c)))"
proof (cases "suitable_agents c ttype = []")
  case True
  then have "snd (snd (assign_task uid now ttype tdata prio c)) =
               c\<lparr> task_queue := task_queue c @
                 [\<lparr> task_id = uid, task_type = ttype, task_data = tdata,
                    priority = prio, queued_at = now \<rparr>] \<rparr>"
    by (simp add: assign_task_def)
  with wf show ?thesis by (simp only: wf_queue)
next
  case False
  show ?thesis
  proof (rule assign_task_selected[OF wf False, of uid now tdata prio])
    fix k a
    assume aid: "agent_id a = k"
      and res: "assign_task uid now ttype tdata prio c =
                (uid, Some (k, uid, tdata),
                 c\<lparr> agents := AList.update k (a\<lparr> status := ''busy'', current_task := Some uid \<rparr>)
                                (agents c),
                    agent_load := (agent_load c)(k := agent_load c k + 1) \<rparr>)"
    show ?thesis
    proof (rule wf_update[OF wf, where k=k and v="a\<lparr> status := ''busy'', current_task := Some uid \<rparr>"])
      show "agent_id (a\<lparr> status := ''busy'', current_task := Some uid \<rparr>) = k"
        using aid by simp
      show "agents (snd (snd (assign_task uid now ttype tdata prio c))) =
              AList.update k (a\<lparr> status := ''busy'', current_task := Some uid \<rparr>) (agents c)"
        unfolding res by simp
    qed
  qed
qed

lemma wf_complete:
  assumes wf: "coordinator_wf c" and r: "complete_task aid tid tdata now c = Inr c'"
  shows "coordinator_wf c'"
proof (cases "map_of (agents c) aid")
  case None
  with r show ?thesis by (simp add: complete_task_def)
next
  case (Some a)
  with r have c': "agents c' = AList.update aid
                     (a\<lparr> status := ''idle'', current_task := None,
                        tasks_completed := tasks_completed a + 1 \<rparr>) (agents c)"
    by (auto simp: complete_task_def)
  have "agent_id (a\<lparr> status := ''idle'', current_task := None,
                        tasks_completed := tasks_completed a + 1 \<rparr>) = aid"
    using wf_map_of[OF wf Some] by simp
  from wf_update[OF wf this c'] show ?thesis .
qed

lemma wf_fail:
  assumes wf: "coordinator_wf c" and r: "fail_task aid tid e now c = Inr c'"
  shows "coordinator_wf c'"
proof (cases "map_of (agents c) aid")
  case None
  with r show ?thesis by (simp add: fail_task_def)
next
  case (Some a)
  with r have c': "agents c' = AList.update aid
                     (a\<lparr> status := ''idle'', current_task := None,
                        tasks_failed := tasks_failed a + 1 \<rparr>) (agents c)"
    by (auto simp: fail_task_def)
  have "agent_id (a\<lparr> status := ''idle'', current_task := None,
                        tasks_failed := tasks_failed a + 1 \<rparr>) = aid"
    using wf_map_of[OF wf Some] by simp
  from wf_update[OF wf this c'] show ?thesis .
qed

lemma wf_execute:
  assumes wf: "coordinator_wf c"
  shows "coordinator_wf (snd (snd (execute_agent_task aid tid tdata work uid now c)))"
proof (cases work)
  case (Some e)
  then show ?thesis using wf wf_fail[OF wf, of aid tid e now]
    by (auto simp: execute_agent_task_def split: sum.splits)
next
  case None
  show ?thesis
  proof (cases "complete_task aid tid tdata now c")
    case (Inl e)
    with None show ?thesis using wf wf_fail[OF wf, of aid tid e now]
      by (auto simp: execute_agent_task_def split: sum.splits)
  next
    case (Inr c1)
    have wf1: "coordinator_wf c1" by (rule wf_complete[OF wf Inr])
    show ?thesis
    proof (cases "task_queue c1")
      case Nil
      with None Inr wf1 show ?thesis by (simp add: execute_agent_task_def)
    next
      case (Cons q rest)
      have "coordinator_wf (c1\<lparr> task_queue := rest \<rparr>)" using wf1 by (simp add: wf_queue)
      from wf_assign[OF this, of uid now "task_type q" "task_data q" "priority q"]
      show ?thesis using None Inr Cons
        by (auto simp: execute_agent_task_def split: prod.splits)
    qed
  qed
qed

lemma wf_sys_step: "coordinator_wf (coord s) \<Longrightarrow> coordinator_wf (coord (sys_step s i))"
proof (cases i)
  case (Finish n work uid now)
  assume wf: "coordinator_wf (coord s)"
  show ?thesis
  proof (cases "n < length (in_flight s)")
    case True
    obtain aid tid td where nth: "in_flight s ! n = (aid, tid, td)" by (cases "in_flight s ! n")
    from wf_execute[OF wf, of aid tid td work uid now] show ?thesis
      using Finish True nth by (auto split: prod.splits)
  next
    case False
    with Finish wf show ?thesis by simp
  qed
next
  case (Assign uid now ttype tdata prio)
  assume wf: "coordinator_wf (coord s)"
  from wf_assign[OF wf, of uid now ttype tdata prio] show ?thesis
    using Assign by (auto split: prod.splits)
qed (simp_all add: wf_register wf_unregister wf_heartbeat)

lemma wf_reachable: "coordinator_wf (coord (foldl sys_step init_system ins))"
proof -
  have "coordinator_wf (coord s) \<Longrightarrow> coordinator_wf (coord (foldl sys_step s ins))" for s
    by (induction ins arbitrary: s) (simp_all add: wf_sys_step)
  moreover have "coordinator_wf (coord init_system)"
    by (simp add: init_system_def init_coordinator_def coordinator_wf_def)
  ultimately show ?thesis .
qed


section \<open>Properties of the workflow engine\<close>

lemma update_workflow_same:
  "workflows (update_workflow wid f e) wid = map_option f (workflows e wid)"
  by (simp add: update_workflow_def split: option.splits)

lemma update_workflow_other:
  "wid' \<noteq> wid \<Longrightarrow> workflows (update_workflow wid f e) wid' = workflows e wid'"
  by (simp add: update_workflow_def split: option.splits)

lemma update_workflow_active:
  "active_workflows (update_workflow wid f e) = active_workflows e"
  by (simp add: update_workflow_def split: option.splits)

lemma update_workflow_twice:
  "update_workflow wid f (update_workflow wid g e) = update_workflow wid (f \<circ> g) e"
  by (simp add: update_workflow_def split: option.splits)







lemmas engine_segment_defs =
  enter_execute_def leave_execute_def begin_execute_def complete_workflow_def fail_workflow_def


lemmas engine_defs =
  execute_workflow_def run_stages_def execute_step_def append_step_def update_workflow_def
  enter_execute_def leave_execute_def begin_execute_def complete_workflow_def fail_workflow_def

lemma fail_in_perception:
  assumes "workflows e wid = Some w"
    and "perception sf (st\<lparr> workflow_id := wid, current_step := ''perception'' \<rparr>) = Inl ex"
  shows "execute_workflow sf wid st now e =
           (Inl ex, e\<lparr> workflows := (workflows e)(wid \<mapsto>
              w\<lparr> wf_status := FAILED, end_time := Some now,
                 steps := steps w @ [failed_step ''perception'' now now ex] \<rparr>) \<rparr>)"
  using assms by (cases w) (simp add: engine_defs failed_step_def completed_step_def)

lemma fail_in_analysis:
  assumes "workflows e wid = Some w"
    and "perception sf (st\<lparr> workflow_id := wid, current_step := ''perception'' \<rparr>) = Inr s1"
    and "analysis sf (s1\<lparr> current_step := ''analysis'' \<rparr>) = Inl ex"
  shows "execute_workflow sf wid st now e =
           (Inl ex, e\<lparr> workflows := (workflows e)(wid \<mapsto>
              w\<lparr> wf_status := FAILED, end_time := Some now,
                 steps := steps w @ [completed_step ''perception'' now now,
                                     failed_step ''analysis'' now now ex] \<rparr>) \<rparr>)"
  using assms by (cases w) (simp add: engine_defs failed_step_def completed_step_def)

lemma fail_in_intervention:
  assumes "workflows e wid = Some w"
    and "perception sf (st\<lparr> workflow_id := wid, current_step := ''perception'' \<rparr>) = Inr s1"
    and "analysis sf (s1\<lparr> current_step := ''analysis'' \<rparr>) = Inr s2"
    and "intervention sf (s2\<lparr> current_step := ''intervention'' \<rparr>) = Inl ex"
  shows "execute_workflow sf wid st now e =
           (Inl ex, e\<lparr> workflows := (workflows e)(wid \<mapsto>
              w\<lparr> wf_status := FAILED, end_time := Some now,
                 steps := steps w @ [completed_step ''perception'' now now,
                                     completed_step ''analysis'' now now,
                                     failed_step ''intervention'' now now ex] \<rparr>) \<rparr>)"
  using assms by (cases w) (simp add: engine_defs failed_step_def completed_step_def)

lemma fail_in_feedback:
  assumes "workflows e wid = Some w"
    and "perception sf (st\<lparr> workflow_id := wid, current_step := ''perception'' \<rparr>) = Inr s1"
    and "analysis sf (s1\<lparr> current_step := ''analysis'' \<rparr>) = Inr s2"
    and "intervention sf (s2\<lparr> current_step := ''intervention'' \<rparr>) = Inr s3"
    and "should_get_feedback s3"
    and "feedback_stage sf (s3\<lparr> current_step := ''feedback'' \<rparr>) = Inl ex"
  shows "execute_workflow sf wid st now e =
           (Inl ex, e\<lparr> workflows := (workflows e)(wid \<mapsto>
              w\<lparr> wf_status := FAILED, end_time := Some now,
                 steps := steps w @ [completed_step ''perception'' now now,
                                     completed_step ''analysis'' now now,
                                     completed_step ''intervention'' now now,
                                     failed_step ''feedback'' now now ex] \<rparr>) \<rparr>)"
  using assms by (cases w) (simp add: engine_defs failed_step_def completed_step_def)



lemma execute_unknown_id:
  assumes "workflows e wid = None"
  shows "execute_workflow sf wid st now e =
           (Inl (AttributeError ([CHR 0x27] @ ''NoneType'' @ [CHR 0x27] @ '' object has no attribute ''
             @ [CHR 0x27] @ ''status'' @ [CHR 0x27])), e)"
  using assms by (simp add: engine_defs)





text \<open>
  Claim C3, evaluated on the source.  For an id without an execution record
  \<open>get_workflow_status\<close> is \<open>None\<close> and \<open>execute_workflow\<close> fails leaving every record as
  it was; but the exception that reaches the caller is the \<open>AttributeError\<close> raised by the
  \<^verbatim>\<open>except\<close> block on \<^verbatim>\<open>workflow.status\<close> (\<open>workflow\<close> being \<open>None\<close>), not the
  \<open>ValueError\<close> "Workflow ... not found" raised in the \<^verbatim>\<open>try\<close> block.
\<close>

theorem execute_unknown_id_attribute_error:
  "get_workflow_status ''w404'' one_workflow = None
   \<and> execute_workflow (source_stages 1) ''w404'' (AgentState ''u1'' 0) 1 one_workflow =
       (Inl (AttributeError ([CHR 0x27] @ ''NoneType'' @ [CHR 0x27] @ '' object has no attribute ''
             @ [CHR 0x27] @ ''status'' @ [CHR 0x27])), one_workflow)
   \<and> begin_execute ''w404'' (enter_execute one_workflow) = Inl (ValueError ''Workflow w404 not found'')"
proof -
  have none: "workflows one_workflow ''w404'' = None"
    by (simp add: create_workflow_def init_engine_def Let_def)
  show ?thesis
    using none execute_unknown_id[OF none]
    by (simp add: get_workflow_status_def begin_execute_def enter_execute_def)
qed

text \<open>
  Claim C4.  When a stage of an execution raises, the later stages are not run: the
  execution becomes \<open>FAILED\<close> with its end time stamped, the records it had are kept,
  followed by a completed record for each stage that returned and, last, the record of
  the failing stage with status \<open>failed\<close> and the error; nothing else of the engine
  changes, and \<open>execute_workflow\<close> raises the stage's exception to its caller.
\<close>

theorem stage_failure_aborts_execution:
  assumes "workflows e wid = Some w"
  shows "(perception sf (st\<lparr> workflow_id := wid, current_step := ''perception'' \<rparr>) = Inl ex \<longrightarrow>
            execute_workflow sf wid st now e =
              (Inl ex, e\<lparr> workflows := (workflows e)(wid \<mapsto>
                 w\<lparr> wf_status := FAILED, end_time := Some now,
                    steps := steps w @ [failed_step ''perception'' now now ex] \<rparr>) \<rparr>))
    \<and> (\<forall>s1. perception sf (st\<lparr> workflow_id := wid, current_step := ''perception'' \<rparr>) = Inr s1
            \<and> analysis sf (s1\<lparr> current_step := ''analysis'' \<rparr>) = Inl ex \<longrightarrow>
            execute_workflow sf wid st now e =
              (Inl ex, e\<lparr> workflows := (workflows e)(wid \<mapsto>
                 w\<lparr> wf_status := FAILED, end_time := Some now,
                    steps := steps w @ [completed_step ''perception'' now now,
                                        failed_step ''analysis'' now now ex] \<rparr>) \<rparr>))
    \<and> (\<forall>s1 s2. perception sf (st\<lparr> workflow_id := wid, current_step := ''perception'' \<rparr>) = Inr s1
            \<and> analysis sf (s1\<lparr> current_step := ''analysis'' \<rparr>) = Inr s2
            \<and> intervention sf (s2\<lparr> current_step := ''intervention'' \<rparr>) = Inl ex \<longrightarrow>
            execute_workflow sf wid st now e =
              (Inl ex, e\<lparr> workflows := (workflows e)(wid \<mapsto>
                 w\<lparr> wf_status := FAILED, end_time := Some now,
                    steps := steps w @ [completed_step ''perception'' now now,
                                        completed_step ''analysis'' now now,
                                        failed_step ''intervention'' now now ex] \<rparr>) \<rparr>))
    \<and> (\<forall>s1 s2 s3. perception sf (st\<lparr> workflow_id := wid, current_step := ''perception'' \<rparr>) = Inr s1
            \<and> analysis sf (s1\<lparr> current_step := ''analysis'' \<rparr>) = Inr s2
            \<and> intervention sf (s2\<lparr> current_step := ''intervention'' \<rparr>) = Inr s3
            \<and> should_get_feedback s3
            \<and> feedback_stage sf (s3\<lparr> current_step := ''feedback'' \<rparr>) = Inl ex \<longrightarrow>
            execute_workflow sf wid st now e =
              (Inl ex, e\<lparr> workflows := (workflows e)(wid \<mapsto>
                 w\<lparr> wf_status := FAILED, end_time := Some now,
                    steps := steps w @ [completed_step ''perception'' now now,
                                        completed_step ''analysis'' now now,
                                        completed_step ''intervention'' now now,
                                        failed_step ''feedback'' now now ex] \<rparr>) \<rparr>))
    \<and> step_status (failed_step name now now ex) = ''failed''
    \<and> step_errors (failed_step name now now ex) = [str_of_error ex]"
  using fail_in_perception[OF assms] fail_in_analysis[OF assms] fail_in_intervention[OF assms]
    fail_in_feedback[OF assms]
  by (simp add: failed_step_def)

theorem stage_failure_aborts_execution_witness:
  "workflows one_workflow ''w1'' =
     Some \<lparr> wf_workflow_id = ''w1'', wf_user_id = ''u1'', start_time = 0, end_time = None,
            wf_status = PENDING, steps = [], result = None \<rparr>
   \<and> execute_workflow perception_raises ''w1'' (AgentState ''u1'' 0) 1 one_workflow =
       (Inl (Raised ''sensor offline''),
        one_workflow\<lparr> workflows := (workflows one_workflow)(''w1'' \<mapsto>
           \<lparr> wf_workflow_id = ''w1'', wf_user_id = ''u1'', start_time = 0, end_time = Some 1,
             wf_status = FAILED,
             steps = [\<lparr> step_name = ''perception'', step_status = ''failed'',
                        step_start_time = 1, step_end_time = Some 1, duration_ms = None,
                        step_data = [], step_errors = [''sensor offline''] \<rparr>],
             result = None \<rparr>) \<rparr>)"
proof -
  have w: "workflows one_workflow ''w1'' =
     Some \<lparr> wf_workflow_id = ''w1'', wf_user_id = ''u1'', start_time = 0, end_time = None,
            wf_status = PENDING, steps = [], result = None \<rparr>"
    by (simp add: create_workflow_def init_engine_def Let_def)
  have p: "perception perception_raises
             ((AgentState ''u1'' 0)\<lparr> workflow_id := ''w1'', current_step := ''perception'' \<rparr>)
           = Inl (Raised ''sensor offline'')"
    by simp
  from stage_failure_aborts_execution[OF w, of perception_raises "AgentState ''u1'' 0"
      "Raised ''sensor offline''" 1] p w
  show ?thesis by (simp add: failed_step_def)
qed





subsection \<open>Status of an execution\<close>






















section \<open>Properties of the event dispatcher\<close>

lemma json_dumps_iso [simp]: "json_dumps [(k, PIso t)] = None"
  by (simp add: json_dumps_def)

lemma emit_raises:
  "json_dumps pl = Some ex \<Longrightarrow> emit uid now etype pl src prio d = (Inl ex, d)"
  by (simp add: emit_def)

lemma emit_history:
  "event_history (snd (emit uid now etype pl src prio d)) =
     (if json_dumps pl \<noteq> None then event_history d
      else if length (event_history d) < 1000 then event_history d @ [length (heap d)]
      else tl (event_history d) @ [length (heap d)])"
  by (cases "event_history d") (auto simp: emit_def Let_def)

lemma emit_history_length:
  "length (event_history d) \<le> 1000 \<Longrightarrow>
     length (event_history (snd (emit uid now etype pl src prio d))) \<le> 1000"
  by (simp add: emit_history)

lemma emit_fields:
  assumes "json_dumps pl = None"
  shows "fst (emit uid now etype pl src prio d) = Inr uid"
    and "heap (snd (emit uid now etype pl src prio d)) =
     heap d @ [\<lparr> event_id = uid, event_type = etype, payload = pl, source = src,
                 ev_priority = prio, ev_timestamp = now, processed = False \<rparr>]"
    and "event_queue (snd (emit uid now etype pl src prio d)) = event_queue d @ [length (heap d)]"
  using assms by (simp_all add: emit_def Let_def)

lemma emit_frame:
  "subscribers (snd (emit uid now etype pl src prio d)) = subscribers d"
  "is_running (snd (emit uid now etype pl src prio d)) = is_running d"
  "processing_task (snd (emit uid now etype pl src prio d)) = processing_task d"
  by (simp_all add: emit_def Let_def split: option.splits)

lemma process_event_frame:
  "event_history (snd (snd (process_event impl r d))) = event_history d"
  "event_queue (snd (snd (process_event impl r d))) = event_queue d"
  "subscribers (snd (snd (process_event impl r d))) = subscribers d"
  "is_running (snd (snd (process_event impl r d))) = is_running d"
  "length (heap (snd (snd (process_event impl r d)))) = length (heap d)"
  by (simp_all add: process_event_def mark_processed_def Let_def
        split: prod.splits option.splits)

lemma process_events_step_history:
  "event_history (snd (snd (process_events_step impl d))) = event_history d"
  by (cases "event_queue d")
     (simp_all add: process_events_step_def case_prod_beta process_event_frame)

lemma subscribe_frame:
  "event_history (snd (subscribe impl etype h d)) = event_history d"
  "event_queue (snd (subscribe impl etype h d)) = event_queue d"
  "heap (snd (subscribe impl etype h d)) = heap d"
  "event_history (snd (unsubscribe impl etype h d)) = event_history d"
  "event_queue (snd (unsubscribe impl etype h d)) = event_queue d"
  "heap (snd (unsubscribe impl etype h d)) = heap d"
  by (simp_all add: subscribe_def unsubscribe_def Let_def split: sum.splits)

lemma reachable_history_bounded:
  "d \<in> reachable_dispatchers \<Longrightarrow> length (event_history d) \<le> 1000"
proof (induction rule: reachable_dispatchers.induct)
  case rd_init
  show ?case by (simp add: init_dispatcher_def)
next
  case (rd_start d uid now)
  then show ?case
    using emit_history_length[of "d\<lparr> is_running := True, processing_task := Some Active \<rparr>"]
    by (simp add: start_def)
next
  case (rd_stop d uid now)
  then show ?case using emit_history_length[of d] by (simp add: stop_def Let_def)
next
  case (rd_subscribe d impl etype h)
  then show ?case by (simp add: subscribe_frame)
next
  case (rd_unsubscribe d impl etype h)
  then show ?case by (simp add: subscribe_frame)
next
  case (rd_emit d uid now etype pl src prio)
  then show ?case by (simp add: emit_history_length)
next
  case (rd_process d impl)
  then show ?case by (simp add: process_events_step_history)
qed

text \<open>
  For a payload of JSON data \<open>emit\<close> returns the id of the new event, which is then the
  last entry of the history; the history never holds more than 1000 events, dropping
  its oldest entry when it is full, in every state that the dispatcher reaches.
\<close>

lemma emit_history_bounded:
  "(d \<in> reachable_dispatchers \<longrightarrow> length (event_history d) \<le> 1000)
   \<and> (length (event_history d) \<le> 1000 \<longrightarrow>
         length (event_history (snd (emit uid now etype pl src prio d))) \<le> 1000)
   \<and> (json_dumps pl = None \<longrightarrow>
         fst (emit uid now etype pl src prio d) = Inr uid
       \<and> heap (snd (emit uid now etype pl src prio d)) =
            heap d @ [\<lparr> event_id = uid, event_type = etype, payload = pl, source = src,
                        ev_priority = prio, ev_timestamp = now, processed = False \<rparr>]
       \<and> event_history (snd (emit uid now etype pl src prio d)) =
            (if length (event_history d) < 1000 then event_history d @ [length (heap d)]
             else tl (event_history d) @ [length (heap d)])
       \<and> last (event_history (snd (emit uid now etype pl src prio d))) = length (heap d)
       \<and> event_id (heap (snd (emit uid now etype pl src prio d))
                     ! last (event_history (snd (emit uid now etype pl src prio d)))) = uid)"
  by (simp add: reachable_history_bounded emit_history emit_fields)

text \<open>
  Claim C7, evaluated on the source.  \<open>emit\<close> with a payload that holds a \<^verbatim>\<open>datetime\<close>
  object: the \<^verbatim>\<open>trace.debug\<close> call at the start of \<open>emit\<close> raises \<open>TypeError\<close> out of
  \<^verbatim>\<open>json.dumps\<close>, so no id is returned and the event is neither queued nor recorded in
  the history.
\<close>

theorem emit_non_json_payload_raises:
  "event_history one_alert = [0]
   \<and> emit ''e9'' 9 ''data.received'' [(''at'', PDatetime 9)] ''system_monitor'' 0 one_alert =
       (Inl (TypeError ''Object of type datetime is not JSON serializable''), one_alert)"
proof -
  have "json_dumps [(''at'', PDatetime 9)] =
          Some (TypeError ''Object of type datetime is not JSON serializable'')"
    by (simp add: json_dumps_def)
  then have "emit ''e9'' 9 ''data.received'' [(''at'', PDatetime 9)] ''system_monitor'' 0 one_alert =
       (Inl (TypeError ''Object of type datetime is not JSON serializable''), one_alert)"
    by (rule emit_raises)
  moreover have "event_history one_alert = [0]"
    by (simp add: emit_def subscribe_def init_dispatcher_def json_dumps_def Let_def read_name_def)
  ultimately show ?thesis by simp
qed

lemma failures_logged:
  "i < length rs \<Longrightarrow> rs ! i = Raises e \<Longrightarrow> HandlerFailed (k + i) e \<in> set (failures k rs)"
proof (induction k rs arbitrary: i rule: failures.induct)
  case (1 k)
  then show ?case by simp
next
  case (2 k rs)
  then show ?case by (cases i) auto
next
  case (3 k e' rs)
  then show ?case by (cases i) auto
qed

text \<open>When every callable has a name, the \<^verbatim>\<open>for\<close> loop runs to its end.\<close>

lemma create_tasks_named:
  assumes "\<forall>h. handler_name (impl h) \<noteq> None"
  shows "create_tasks impl ev hs tasks lg =
           (None, tasks @ filter (\<lambda>h. create_task (impl h) ev = None) hs,
            lg @ concat (map (\<lambda>h. case create_task (impl h) ev of
                                     None \<Rightarrow> []
                                   | Some e \<Rightarrow> [ErrorCreatingTask (the (handler_name (impl h))) e])
                           hs))"
proof (induction hs arbitrary: tasks lg)
  case Nil
  show ?case by simp
next
  case (Cons h hs)
  from assms have "handler_name (impl h) \<noteq> None" by (rule spec)
  then obtain n where n: "handler_name (impl h) = Some n" by blast
  show ?case
  proof (cases "create_task (impl h) ev")
    case None
    then show ?thesis using Cons.IH[of "tasks @ [h]" lg] by simp
  next
    case (Some e)
    then show ?thesis using Cons.IH[of tasks "lg @ [ErrorCreatingTask n e]"] n
      by (simp add: read_name_def)
  qed
qed

lemma process_event_named:
  assumes "\<forall>h. handler_name (impl h) \<noteq> None"
  shows "process_event impl r d =
           (matching_handlers impl d r,
            (if subscribers d (event_type (heap d ! r)) @ subscribers d ''*'' = [] then []
             else concat (map (\<lambda>h. case create_task (impl h) (heap d ! r) of
                                     None \<Rightarrow> []
                                   | Some e \<Rightarrow> [ErrorCreatingTask (the (handler_name (impl h))) e])
                           (subscribers d (event_type (heap d ! r)) @ subscribers d ''*''))
                  @ failures 0 (map (\<lambda>h. run (impl h) (heap d ! r)) (matching_handlers impl d r))),
            mark_processed r d)"
  by (simp add: process_event_def Let_def create_tasks_named[OF assms] matching_handlers_def)

lemma process_event_log:
  assumes named: "\<forall>h. handler_name (impl h) \<noteq> None"
    and "i < length (matching_handlers impl d r)"
    and "run (impl (matching_handlers impl d r ! i)) (heap d ! r) = Raises e"
  shows "HandlerFailed i e \<in> set (fst (snd (process_event impl r d)))"
proof -
  let ?tasks = "matching_handlers impl d r"
  have ne: "subscribers d (event_type (heap d ! r)) @ subscribers d ''*'' \<noteq> []"
    using assms(2) by (auto simp: matching_handlers_def)
  have "HandlerFailed (0 + i) e \<in> set (failures 0 (map (\<lambda>h. run (impl h) (heap d ! r)) ?tasks))"
    by (rule failures_logged) (use assms in simp_all)
  then show ?thesis using ne
    by (simp add: process_event_named[OF named])
qed

lemma process_event_create_log:
  assumes named: "\<forall>h. handler_name (impl h) \<noteq> None"
    and "h \<in> set (subscribers d (event_type (heap d ! r)) @ subscribers d ''*'')"
    and "create_task (impl h) (heap d ! r) = Some e"
  shows "ErrorCreatingTask (the (handler_name (impl h))) e \<in> set (fst (snd (process_event impl r d)))"
proof -
  have ne: "subscribers d (event_type (heap d ! r)) @ subscribers d ''*'' \<noteq> []"
    using assms(2) by auto
  show ?thesis
    unfolding process_event_named[OF named] using ne assms(2,3)
    by (simp only: fst_conv snd_conv if_False set_append set_concat set_map) force
qed

lemma matching_handlers_cong:
  assumes "subscribers d' = subscribers d" and "heap d' ! r = heap d ! r"
  shows "matching_handlers impl d' r = matching_handlers impl d r"
  using assms by (simp add: matching_handlers_def)

lemma process_events_step_tail:
  "event_queue (snd (snd (process_events_step impl d))) = tl (event_queue d)"
  "length (heap (snd (snd (process_events_step impl d)))) = length (heap d)"
  by (cases "event_queue d";
      simp add: process_events_step_def case_prod_beta process_event_frame)+

lemma process_events_step_effect:
  assumes "\<forall>h. handler_name (impl h) \<noteq> None" and "event_queue d = r # rest"
  shows "process_events_step impl d =
           (map (\<lambda>h. (h, r)) (matching_handlers impl d r),
            fst (snd (process_event impl r (d\<lparr> event_queue := rest \<rparr>))),
            d\<lparr> event_queue := rest, heap := (heap d)[r := (heap d ! r)\<lparr> processed := True \<rparr>] \<rparr>)"
  using assms(2)
  by (simp add: process_events_step_def process_event_named[OF assms(1)] mark_processed_def
        matching_handlers_def)

lemma process_events_effect:
  assumes named: "\<forall>h. handler_name (impl h) \<noteq> None"
    and "is_running d" and "dispatcher_wf d"
  shows "fst (process_events impl n d) =
           concat (map (\<lambda>r. map (\<lambda>h. (h, r)) (matching_handlers impl d r)) (take n (event_queue d)))
       \<and> event_queue (snd (snd (process_events impl n d))) = drop n (event_queue d)
       \<and> heap (snd (snd (process_events impl n d))) =
           map (\<lambda>j. if j \<in> set (take n (event_queue d))
                     then (heap d ! j)\<lparr> processed := True \<rparr> else heap d ! j)
             [0..<length (heap d)]
       \<and> subscribers (snd (snd (process_events impl n d))) = subscribers d
       \<and> event_history (snd (snd (process_events impl n d))) = event_history d
       \<and> is_running (snd (snd (process_events impl n d)))"
  using assms(2,3)
proof (induction n arbitrary: d)
  case 0
  then show ?case by (simp add: map_nth)
next
  case (Suc n)
  show ?case
  proof (cases "event_queue d")
    case Nil
    have st: "process_events_step impl d = ([], [], d)"
      using Nil by (simp add: process_events_step_def)
    from Suc.IH[OF Suc.prems] Nil Suc.prems(1) st show ?thesis
      by (simp add: case_prod_beta)
  next
    case (Cons r rest)
    define d1 where "d1 = d\<lparr> event_queue := rest,
                            heap := (heap d)[r := (heap d ! r)\<lparr> processed := True \<rparr>] \<rparr>"
    have st: "process_events_step impl d =
           (map (\<lambda>h. (h, r)) (matching_handlers impl d r),
            fst (snd (process_event impl r (d\<lparr> event_queue := rest \<rparr>))), d1)"
      unfolding d1_def by (rule process_events_step_effect[OF named Cons])
    have rlt: "r < length (heap d)" and rnot: "r \<notin> set rest" and drest: "distinct rest"
      and rest_lt: "list_all (\<lambda>r. r < length (heap d)) rest"
      using Suc.prems(2) Cons by (simp_all add: dispatcher_wf_def)
    have run1: "is_running d1" using Suc.prems(1) by (simp add: d1_def)
    have wf1: "dispatcher_wf d1"
      using drest rest_lt by (simp add: dispatcher_wf_def d1_def)
    note IH = Suc.IH[OF run1 wf1]
    have same: "matching_handlers impl d1 r' = matching_handlers impl d r'" if "r' \<in> set rest" for r'
    proof -
      from that rnot have "r' \<noteq> r" by auto
      then show ?thesis
        by (intro matching_handlers_cong) (simp_all add: d1_def)
    qed
    have dl: "concat (map (\<lambda>r. map (\<lambda>h. (h, r)) (matching_handlers impl d1 r)) (take n rest)) =
              concat (map (\<lambda>r. map (\<lambda>h. (h, r)) (matching_handlers impl d r)) (take n rest))"
    proof -
      have "map (\<lambda>r. map (\<lambda>h. (h, r)) (matching_handlers impl d1 r)) (take n rest) =
            map (\<lambda>r. map (\<lambda>h. (h, r)) (matching_handlers impl d r)) (take n rest)"
        by (rule map_cong[OF refl]) (use same in \<open>auto dest: in_set_takeD\<close>)
      then show ?thesis by (rule arg_cong)
    qed
    have hp: "map (\<lambda>j. if j \<in> set (take n (event_queue d1))
                     then (heap d1 ! j)\<lparr> processed := True \<rparr> else heap d1 ! j)
               [0..<length (heap d1)] =
              map (\<lambda>j. if j \<in> set (take (Suc n) (event_queue d))
                     then (heap d ! j)\<lparr> processed := True \<rparr> else heap d ! j)
               [0..<length (heap d)]"
      using rlt Cons by (auto simp: d1_def nth_list_update)
    have pe: "process_events impl (Suc n) d =
                (map (\<lambda>h. (h, r)) (matching_handlers impl d r) @ fst (process_events impl n d1),
                 fst (snd (process_event impl r (d\<lparr> event_queue := rest \<rparr>)))
                   @ fst (snd (process_events impl n d1)),
                 snd (snd (process_events impl n d1)))"
      using Suc.prems(1) st by (simp add: case_prod_beta)
    show ?thesis
      unfolding pe using IH dl hp Cons
      by (simp add: d1_def)
  qed
qed

lemma wf_emit:
  assumes "dispatcher_wf d"
  shows "dispatcher_wf (snd (emit uid now etype pl src prio d))"
proof (cases "json_dumps pl")
  case (Some ex)
  with assms show ?thesis by (simp add: emit_raises)
next
  case None
  from assms have d: "distinct (event_queue d)"
    and l: "list_all (\<lambda>r. r < length (heap d)) (event_queue d)"
    by (simp_all add: dispatcher_wf_def)
  from l have fresh: "length (heap d) \<notin> set (event_queue d)"
    by (auto simp: list_all_iff)
  from l have l': "list_all (\<lambda>r. r < Suc (length (heap d))) (event_queue d)"
    by (auto simp: list_all_iff)
  show ?thesis
    using d fresh l' by (simp add: dispatcher_wf_def emit_fields[OF None])
qed

lemma wf_process_step:
  assumes "dispatcher_wf d"
  shows "dispatcher_wf (snd (snd (process_events_step impl d)))"
  using assms
  by (cases "event_queue d")
     (simp_all add: dispatcher_wf_def process_events_step_tail)

lemma reachable_dispatcher_wf:
  "d \<in> reachable_dispatchers \<Longrightarrow> dispatcher_wf d"
proof (induction rule: reachable_dispatchers.induct)
  case rd_init
  show ?case by (simp add: init_dispatcher_def dispatcher_wf_def)
next
  case (rd_start d uid now)
  then have "dispatcher_wf (d\<lparr> is_running := True, processing_task := Some Active \<rparr>)"
    by (simp add: dispatcher_wf_def)
  from wf_emit[OF this] rd_start.IH show ?case by (simp add: start_def)
next
  case (rd_stop d uid now)
  from wf_emit[OF rd_stop.IH] rd_stop.IH show ?case
    by (simp add: stop_def Let_def dispatcher_wf_def)
next
  case (rd_subscribe d impl etype h)
  then show ?case by (simp add: dispatcher_wf_def subscribe_frame)
next
  case (rd_unsubscribe d impl etype h)
  then show ?case by (simp add: dispatcher_wf_def subscribe_frame)
next
  case (rd_emit d uid now etype pl src prio)
  then show ?case by (simp add: wf_emit)
next
  case (rd_process d impl)
  then show ?case by (simp add: wf_process_step)
qed

lemma matching_handlers_run_independent:
  assumes "\<And>h. is_coroutine (impl' h) = is_coroutine (impl h)"
    and "\<And>h. call_raises (impl' h) = call_raises (impl h)"
  shows "matching_handlers impl' d r = matching_handlers impl d r"
  using assms by (simp add: matching_handlers_def create_task_def)


text \<open>
  When every callable has a name: for an event taken from the queue, every subscriber of
  its type and every wildcard subscriber whose task could be created is called, whatever
  the calls do; a task that could not be created is logged under the handler's name, a
  handler that raises is logged by its index, the event is marked processed, and the
  loop goes on.  Over the following iterations the deliveries are those that the
  subscriptions call for, event by event in queue order, and they are the same when the
  handlers' outcomes are replaced by any others.
\<close>

lemma handler_failure_isolated:
  assumes named: "\<forall>h. handler_name (impl h) \<noteq> None"
  shows "fst (process_event impl r d) =
     filter (\<lambda>h. create_task (impl h) (heap d ! r) = None)
       (subscribers d (event_type (heap d ! r)) @ subscribers d ''*'')
   \<and> heap (snd (snd (process_event impl r d))) = (heap d)[r := (heap d ! r)\<lparr> processed := True \<rparr>]
   \<and> is_running (snd (snd (process_event impl r d))) = is_running d
   \<and> subscribers (snd (snd (process_event impl r d))) = subscribers d
   \<and> event_queue (snd (snd (process_event impl r d))) = event_queue d
   \<and> (\<forall>i e. i < length (fst (process_event impl r d))
          \<and> run (impl (fst (process_event impl r d) ! i)) (heap d ! r) = Raises e
        \<longrightarrow> HandlerFailed i e \<in> set (fst (snd (process_event impl r d))))
   \<and> (\<forall>h e. h \<in> set (subscribers d (event_type (heap d ! r)) @ subscribers d ''*'')
          \<and> create_task (impl h) (heap d ! r) = Some e
        \<longrightarrow> ErrorCreatingTask (the (handler_name (impl h))) e
              \<in> set (fst (snd (process_event impl r d))))
   \<and> (is_running d \<and> dispatcher_wf d \<longrightarrow>
        fst (process_events impl n d) =
          concat (map (\<lambda>r. map (\<lambda>h. (h, r)) (matching_handlers impl d r)) (take n (event_queue d)))
      \<and> (\<forall>impl'. (\<forall>h. handler_name (impl' h) \<noteq> None
                       \<and> is_coroutine (impl' h) = is_coroutine (impl h)
                       \<and> call_raises (impl' h) = call_raises (impl h))
            \<longrightarrow> fst (process_events impl' n d) = fst (process_events impl n d))
      \<and> event_queue (snd (snd (process_events impl n d))) = drop n (event_queue d)
      \<and> (\<forall>r \<in> set (take n (event_queue d)).
            processed (heap (snd (snd (process_events impl n d))) ! r))
      \<and> is_running (snd (snd (process_events impl n d))))"
proof (intro conjI impI allI ballI)
  show "fst (process_event impl r d) =
     filter (\<lambda>h. create_task (impl h) (heap d ! r) = None)
       (subscribers d (event_type (heap d ! r)) @ subscribers d ''*'')"
    by (simp add: process_event_named[OF named] matching_handlers_def)
  show "heap (snd (snd (process_event impl r d))) = (heap d)[r := (heap d ! r)\<lparr> processed := True \<rparr>]"
    by (simp add: process_event_named[OF named] mark_processed_def)
  show "is_running (snd (snd (process_event impl r d))) = is_running d"
    and "subscribers (snd (snd (process_event impl r d))) = subscribers d"
    and "event_queue (snd (snd (process_event impl r d))) = event_queue d"
    by (simp_all add: process_event_frame)
next
  fix i e
  assume "i < length (fst (process_event impl r d))
          \<and> run (impl (fst (process_event impl r d) ! i)) (heap d ! r) = Raises e"
  then show "HandlerFailed i e \<in> set (fst (snd (process_event impl r d)))"
    using process_event_log[OF named, of i d r e] by (simp add: process_event_named[OF named])
next
  fix h e
  assume "h \<in> set (subscribers d (event_type (heap d ! r)) @ subscribers d ''*'')
          \<and> create_task (impl h) (heap d ! r) = Some e"
  then show "ErrorCreatingTask (the (handler_name (impl h))) e
              \<in> set (fst (snd (process_event impl r d)))"
    using process_event_create_log[OF named, of h d r e] by blast
next
  assume a: "is_running d \<and> dispatcher_wf d"
  then have run: "is_running d" and wf: "dispatcher_wf d" by simp_all
  note eff = process_events_effect[OF named run wf]
  show "fst (process_events impl n d) =
          concat (map (\<lambda>r. map (\<lambda>h. (h, r)) (matching_handlers impl d r)) (take n (event_queue d)))"
    using eff[of n] by simp
  show "event_queue (snd (snd (process_events impl n d))) = drop n (event_queue d)"
    using eff[of n] by simp
  show "is_running (snd (snd (process_events impl n d)))"
    using eff[of n] by simp
next
  fix impl' :: "handler \<Rightarrow> handler_impl"
  assume a: "is_running d \<and> dispatcher_wf d"
    and same: "\<forall>h. handler_name (impl' h) \<noteq> None
                       \<and> is_coroutine (impl' h) = is_coroutine (impl h)
                       \<and> call_raises (impl' h) = call_raises (impl h)"
  from a have run: "is_running d" and wf: "dispatcher_wf d" by simp_all
  from same have named': "\<forall>h. handler_name (impl' h) \<noteq> None" by simp
  have "matching_handlers impl' d r = matching_handlers impl d r" for r
    using same by (intro matching_handlers_run_independent) simp_all
  then show "fst (process_events impl' n d) = fst (process_events impl n d)"
    using process_events_effect[OF named' run wf, of n] process_events_effect[OF named run wf, of n]
    by simp
next
  fix r'
  assume a: "is_running d \<and> dispatcher_wf d" and mem: "r' \<in> set (take n (event_queue d))"
  from a have run: "is_running d" and wf: "dispatcher_wf d" by simp_all
  from mem have "r' \<in> set (event_queue d)" by (rule in_set_takeD)
  with wf have lt: "r' < length (heap d)" by (auto simp: dispatcher_wf_def list_all_iff)
  from process_events_effect[OF named run wf, of n]
  have "heap (snd (snd (process_events impl n d))) =
           map (\<lambda>j. if j \<in> set (take n (event_queue d))
                     then (heap d ! j)\<lparr> processed := True \<rparr> else heap d ! j)
             [0..<length (heap d)]" by simp
  then show "processed (heap (snd (snd (process_events impl n d))) ! r')"
    using lt mem by simp
qed

lemmas dispatcher_defs =
  emit_def subscribe_def init_dispatcher_def process_event_def process_events_step_def
  mark_processed_def create_task_def matching_handlers_def json_dumps_def read_name_def

text \<open>
  The always-raising subscriber of \<open>alert.raised\<close>: both events reach all three
  subscribers, both failures are logged, and both events are marked processed.
\<close>

lemma two_alerts_delivered:
  "process_events example_impl 2 two_alerts =
     ([(''broken'', 0), (''notify'', 0), (''audit'', 0),
       (''broken'', 1), (''notify'', 1), (''audit'', 1)],
      [HandlerFailed 0 (Raised ''boom''), HandlerFailed 0 (Raised ''boom'')],
      two_alerts\<lparr> event_queue := [],
                   heap := map (\<lambda>ev. ev\<lparr> processed := True \<rparr>) (heap two_alerts) \<rparr>)"
  by (simp add: numeral_2_eq_2 dispatcher_defs Let_def)

text \<open>
  Claim C8, evaluated on the source.  A \<^verbatim>\<open>functools.partial\<close> of a coroutine function
  that takes no argument is subscribed before a second handler (\<open>subscribe\<close> raises on its
  missing \<^verbatim>\<open>__name__\<close>, after the list has been extended).  When an event of that type
  is processed, the call of the partial raises, the \<^verbatim>\<open>except\<close> block around it raises in
  turn on \<^verbatim>\<open>handler.__name__\<close>, and the \<^verbatim>\<open>except\<close> block of the loop logs that: the second
  handler, whose task could be created, is not called, and the event is not marked
  processed.  The loop goes on.
\<close>

theorem nameless_handler_blocks_delivery:
  "subscribe example_impl ''alert.raised'' ''partial'' (init_dispatcher\<lparr> is_running := True \<rparr>) =
     (Inl (AttributeError ''__name__''),
      init_dispatcher\<lparr> is_running := True,
                        subscribers := (\<lambda>k. [])(''alert.raised'' := [''partial'']) \<rparr>)
   \<and> subscribers one_alert ''alert.raised'' = [''partial'', ''notify'']
   \<and> event_queue one_alert = [0]
   \<and> create_task (example_impl ''partial'') (heap one_alert ! 0) =
       Some (TypeError ''f() takes 0 positional arguments but 1 was given'')
   \<and> create_task (example_impl ''notify'') (heap one_alert ! 0) = None
   \<and> fst (process_events example_impl 1 one_alert) = []
   \<and> fst (snd (process_events example_impl 1 one_alert)) = [ErrorInLoop (AttributeError ''__name__'')]
   \<and> event_queue (snd (snd (process_events example_impl 1 one_alert))) = []
   \<and> map processed (heap (snd (snd (process_events example_impl 1 one_alert)))) = [False]
   \<and> is_running (snd (snd (process_events example_impl 1 one_alert)))"
  by (simp add: dispatcher_defs Let_def)

end
